theory Spec2Isabelle
  imports Main "HOL-Library.Sublist"
begin

section \<open>Go strings\<close>

text \<open>
  A Go string is a sequence of bytes, here a \<^typ>\<open>string\<close>; text is UTF-8.

  \<^verbatim>\<open>strings.ToLower\<close> and \<^verbatim>\<open>strings.ToUpper\<close> map a string of ASCII bytes byte by
  byte, touching the letters only, and hand every other string to
  \<^verbatim>\<open>strings.Map(unicode.ToLower, s)\<close> and \<^verbatim>\<open>strings.Map(unicode.ToUpper, s)\<close>. These two
  maps rest on the case tables of package \<^verbatim>\<open>unicode\<close>; they are the parameter \<open>u\<close> of
  everything that changes case.
\<close>

definition lowerByte :: "char \<Rightarrow> char" where
  "lowerByte c =
     (if (65::nat) \<le> of_char c \<and> of_char c \<le> (90::nat)
      then char_of (of_char c + (32::nat)) else c)"

definition upperByte :: "char \<Rightarrow> char" where
  "upperByte c =
     (if (97::nat) \<le> of_char c \<and> of_char c \<le> (122::nat)
      then char_of (of_char c - (32::nat)) else c)"

definition isASCII :: "string \<Rightarrow> bool" where
  "isASCII s = list_all (\<lambda>c. of_char c < (128::nat)) s"

record unicode =
  MapToLower :: "string \<Rightarrow> string"
  MapToUpper :: "string \<Rightarrow> string"

definition ToLower :: "unicode \<Rightarrow> string \<Rightarrow> string" where
  "ToLower u s = (if isASCII s then map lowerByte s else MapToLower u s)"

definition ToUpper :: "unicode \<Rightarrow> string \<Rightarrow> string" where
  "ToUpper u s = (if isASCII s then map upperByte s else MapToUpper u s)"

text \<open>
  A case mapping that leaves every string with a byte outside ASCII as it is. It stands
  for \<open>u\<close> where a property is evaluated on ASCII text, for which no table is consulted.
\<close>

definition noCaseMapping :: unicode where
  "noCaseMapping = \<lparr>MapToLower = (\<lambda>s. s), MapToUpper = (\<lambda>s. s)\<rparr>"

text \<open>
  \<^verbatim>\<open>strings.TrimSpace\<close> removes the leading and the trailing white space as Unicode
  defines it: the runes U+0009 to U+000D, U+0020, U+0085, U+00A0, U+1680, U+2000 to
  U+200A, U+2028, U+2029, U+202F, U+205F and U+3000. \<open>spaceRunes\<close> lists their UTF-8
  encodings. A byte sequence that is no valid encoding decodes to the replacement rune,
  which is no white space, so trimming stops there.
\<close>

definition spaceRunes :: "string list" where
  "spaceRunes =
     [[CHR 0x09], [CHR 0x0A], [CHR 0x0B], [CHR 0x0C], [CHR 0x0D], [CHR 0x20],
      [CHR 0xC2, CHR 0x85], [CHR 0xC2, CHR 0xA0],
      [CHR 0xE1, CHR 0x9A, CHR 0x80],
      [CHR 0xE2, CHR 0x80, CHR 0x80], [CHR 0xE2, CHR 0x80, CHR 0x81],
      [CHR 0xE2, CHR 0x80, CHR 0x82], [CHR 0xE2, CHR 0x80, CHR 0x83],
      [CHR 0xE2, CHR 0x80, CHR 0x84], [CHR 0xE2, CHR 0x80, CHR 0x85],
      [CHR 0xE2, CHR 0x80, CHR 0x86], [CHR 0xE2, CHR 0x80, CHR 0x87],
      [CHR 0xE2, CHR 0x80, CHR 0x88], [CHR 0xE2, CHR 0x80, CHR 0x89],
      [CHR 0xE2, CHR 0x80, CHR 0x8A],
      [CHR 0xE2, CHR 0x80, CHR 0xA8], [CHR 0xE2, CHR 0x80, CHR 0xA9],
      [CHR 0xE2, CHR 0x80, CHR 0xAF],
      [CHR 0xE2, CHR 0x81, CHR 0x9F],
      [CHR 0xE3, CHR 0x80, CHR 0x80]]"

text \<open>
  The loop of \<^verbatim>\<open>TrimLeftFunc\<close>: as long as the string starts with one of the given
  encodings, that rune is dropped. \<^verbatim>\<open>TrimRightFunc\<close> is the same loop on the reversed
  string with the reversed encodings.
\<close>

function trimRunes :: "string list \<Rightarrow> string \<Rightarrow> string" where
  "trimRunes ws s =
     (case find (\<lambda>w. w \<noteq> [] \<and> prefix w s) ws of
        Some w \<Rightarrow> trimRunes ws (drop (length w) s)
      | None \<Rightarrow> s)"
  by pat_completeness auto
termination
proof (relation "measure (\<lambda>(ws, s). length s)")
  show "wf (measure (\<lambda>(ws, s). length s))" by simp
next
  fix ws :: "string list" and s w :: string
  assume "find (\<lambda>w. w \<noteq> [] \<and> prefix w s) ws = Some w"
  then have "w \<noteq> []" and "prefix w s"
    by (auto simp: find_Some_iff)
  then have "s \<noteq> []" by auto
  with \<open>w \<noteq> []\<close> show "((ws, drop (length w) s), (ws, s)) \<in> measure (\<lambda>(ws, s). length s)"
    by simp
qed

declare trimRunes.simps [simp del]

definition TrimSpace :: "string \<Rightarrow> string" where
  "TrimSpace s = rev (trimRunes (map rev spaceRunes) (rev (trimRunes spaceRunes s)))"

text \<open>\<^verbatim>\<open>strings.Split(s, sep)\<close> for a separator of one byte: always at least one piece.\<close>

fun Split :: "string \<Rightarrow> char \<Rightarrow> string list" where
  "Split [] sep = [[]]"
| "Split (c # s) sep =
     (if c = sep then [] # Split s sep
      else (case Split s sep of p # ps \<Rightarrow> (c # p) # ps | [] \<Rightarrow> [[c]]))"

text \<open>
  \<^verbatim>\<open>strings.SplitN(s, sep, 2)\<close> for a separator of one byte: the text before the first
  separator and the unsplit rest after it, or the whole string alone when it holds no
  separator.
\<close>

definition SplitN2 :: "string \<Rightarrow> char \<Rightarrow> string list" where
  "SplitN2 s sep =
     (if sep \<in> set s
      then [takeWhile (\<lambda>c. c \<noteq> sep) s, tl (dropWhile (\<lambda>c. c \<noteq> sep) s)]
      else [s])"

fun Contains :: "string \<Rightarrow> string \<Rightarrow> bool" where
  "Contains [] substr = (substr = [])"
| "Contains (c # s) substr = (prefix substr (c # s) \<or> Contains s substr)"

definition HasPrefix :: "string \<Rightarrow> string \<Rightarrow> bool" where
  "HasPrefix s p = prefix p s"

section \<open>Decoded JSON\<close>

text \<open>
  \<^verbatim>\<open>json.Unmarshal\<close> into an \<^verbatim>\<open>interface{}\<close> yields \<^verbatim>\<open>nil\<close>, a \<^verbatim>\<open>bool\<close>, a
  \<^verbatim>\<open>float64\<close>, a \<^verbatim>\<open>string\<close>, a \<^verbatim>\<open>[]interface{}\<close> or a \<^verbatim>\<open>map[string]interface{}\<close>.
  The receiver never computes with a number, so the type of numbers is a parameter.
  A Go map is an association list that is read through \<^const>\<open>map_of\<close>; ranging over the
  map visits the bindings of the list in its order, and the keys of a list that stands
  for a Go map are distinct. The untyped \<^verbatim>\<open>nil\<close> is \<open>JNull\<close>: it is both the
  decoded JSON \<^verbatim>\<open>null\<close> and the "nothing found" result of the path extraction.
\<close>

datatype 'n json =
    JNull
  | JBool bool
  | JNum 'n
  | JStr string
  | JArr "'n json list"
  | JObj "(string \<times> 'n json) list"

lemma size_map_of_child:
  "map_of kvs k = Some c \<Longrightarrow> size c < size (JObj kvs)"
  by (induction kvs) (auto split: if_splits)

lemma size_array_elem:
  "el \<in> set xs \<Longrightarrow> size el < size (JArr xs)"
  by (induction xs) auto

section \<open>Path extraction\<close>

text \<open>
  The inner type switch of the array branch of \<^verbatim>\<open>extractValueByPath\<close>: a \<^verbatim>\<open>nil\<close>
  result is skipped, a slice is appended member by member, anything else is appended.
\<close>

definition appendResult :: "'n json list \<Rightarrow> 'n json \<Rightarrow> 'n json list" where
  "appendResult results v =
     (case v of
        JNull \<Rightarrow> results
      | JArr vv \<Rightarrow> results @ vv
      | _ \<Rightarrow> results @ [v])"

function extractValueByPath :: "string \<Rightarrow> 'n json \<Rightarrow> 'n json" where
  "extractValueByPath path raw =
     (if raw = JNull \<or> path = [] then JNull
      else
        let parts = SplitN2 path (CHR ''.'');
            head = parts ! 0;
            tail = (if length parts = 2 then parts ! 1 else [])
        in case raw of
             JObj node \<Rightarrow>
               (case map_of node head of
                  Some child \<Rightarrow>
                    if tail = [] then child else extractValueByPath tail child
                | None \<Rightarrow> JNull)
           | JArr node \<Rightarrow>
               (let results =
                      foldl (\<lambda>results el. appendResult results (extractValueByPath path el))
                        [] node
                in if length results = 0 then JNull else JArr results)
           | _ \<Rightarrow> JNull)"
  by pat_completeness auto
termination
  by (relation "measure (\<lambda>(p, j). size j)")
     (auto dest: size_map_of_child size_array_elem)

declare extractValueByPath.simps [simp del]

section \<open>Configuration\<close>

record targetConfig =
  Endpoint :: string
  Method :: string
  Body :: string
  Headers :: "(string \<times> string) list"
  ServiceName :: string
  LogLevel :: string
  Labels :: "(string \<times> string) list"

section \<open>Log data\<close>

text \<open>
  A \<^verbatim>\<open>pcommon.Value\<close> as far as the receiver builds one. A \<^verbatim>\<open>pcommon.Map\<close> is a sequence
  of key-value pairs; putting a key that is already there replaces its value in place, a
  new key is appended.
\<close>

datatype 'n pvalue =
    VEmpty
  | VStr string
  | VDouble 'n
  | VBool bool
  | VMap "(string \<times> 'n pvalue) list"
  | VSlice "'n pvalue list"

fun Put :: "(string \<times> 'v) list \<Rightarrow> string \<Rightarrow> 'v \<Rightarrow> (string \<times> 'v) list" where
  "Put [] k v = [(k, v)]"
| "Put ((k', v') # m) k v = (if k' = k then (k', v) # m else (k', v') # Put m k v)"

definition PutStr :: "(string \<times> 'n pvalue) list \<Rightarrow> string \<Rightarrow> string \<Rightarrow> (string \<times> 'n pvalue) list" where
  "PutStr m k s = Put m k (VStr s)"

definition Get :: "(string \<times> 'v) list \<Rightarrow> string \<Rightarrow> 'v option" where
  "Get m k = map_of m k"

datatype SeverityNumber =
    SeverityNumberTrace
  | SeverityNumberDebug
  | SeverityNumberInfo
  | SeverityNumberWarn
  | SeverityNumberError
  | SeverityNumberFatal

record 'n logRecord =
  Timestamp :: nat
  SeverityText :: string
  Severity :: SeverityNumber
  Attributes :: "(string \<times> 'n pvalue) list"
  Body :: "'n pvalue"

record 'n scopeLogs =
  LogRecords :: "'n logRecord list"

record 'n resourceLogs =
  Resource :: "(string \<times> 'n pvalue) list"
  ScopeLogs :: "'n scopeLogs list"

type_synonym 'n logs = "'n resourceLogs list"

definition LogRecordCount :: "'n logs \<Rightarrow> nat" where
  "LogRecordCount ld =
     sum_list (map (\<lambda>rl. sum_list (map (\<lambda>sl. length (LogRecords sl)) (ScopeLogs rl))) ld)"

section \<open>Severity\<close>

definition getSeverityNumber :: "unicode \<Rightarrow> string \<Rightarrow> SeverityNumber" where
  "getSeverityNumber u level =
     (let l = ToLower u level in
      if l = ''trace'' then SeverityNumberTrace
      else if l = ''debug'' then SeverityNumberDebug
      else if l = ''info'' then SeverityNumberInfo
      else if l = ''warn'' \<or> l = ''warning'' then SeverityNumberWarn
      else if l = ''error'' then SeverityNumberError
      else if l = ''fatal'' then SeverityNumberFatal
      else SeverityNumberInfo)"

section \<open>Structural body\<close>

lemma size_object_entry:
  "(k, child) \<in> set val \<Longrightarrow> size child < size (JObj val)"
  by (induction val) auto

text \<open>
  \<^verbatim>\<open>setBodyValue\<close> fills the destination value; the model returns the value it leaves
  there. The \<^verbatim>\<open>default\<close> branch of the type switch is not reachable from a decoded JSON
  value and has no counterpart.
\<close>

function setBodyValue :: "'n json \<Rightarrow> 'n pvalue" where
  "setBodyValue (JObj val) =
     VMap (foldl (\<lambda>m kv. Put m (fst kv) (setBodyValue (snd kv))) [] val)"
| "setBodyValue (JArr val) =
     VSlice (foldl (\<lambda>s elem. s @ [setBodyValue elem]) [] val)"
| "setBodyValue (JStr val) = VStr val"
| "setBodyValue (JNum val) = VDouble val"
| "setBodyValue (JBool val) = VBool val"
| "setBodyValue JNull = VStr ''null''"
  by pat_completeness auto
termination
  by (relation "measure size")
     (auto dest: size_array_elem intro: size_object_entry [of "fst kv" "snd kv" for kv, simplified])

section \<open>Parsing a response\<close>

datatype error =
    UnmarshalError string
  | ParseLogsError error
  | CreateRequestError string
  | ExecuteRequestError string
  | HTTPError int string
  | ReadBodyError string
  | ConsumeLogsError string

text \<open>
  What \<^verbatim>\<open>pollTarget\<close> reads of an \<^verbatim>\<open>http.Response\<close>: the status code, the status
  text, the value of \<^verbatim>\<open>resp.Header.Get("Content-Type")\<close> and the outcome of
  \<^verbatim>\<open>io.ReadAll(resp.Body)\<close>.
\<close>

record response =
  StatusCode :: int
  Status :: string
  ContentType :: string
  ReadAll :: "string + string"

text \<open>
  \<^verbatim>\<open>addLogRecord\<close> appends one record to the scope. Its parameters are the case
  tables \<open>u\<close>, the rendering \<^verbatim>\<open>fmt.Sprintf("%v", val)\<close> and the reading of the clock.
\<close>

definition addLogRecord ::
  "unicode \<Rightarrow> ('n json \<Rightarrow> string) \<Rightarrow> nat \<Rightarrow> 'n scopeLogs \<Rightarrow> 'n json \<Rightarrow> targetConfig \<Rightarrow> 'n scopeLogs" where
  "addLogRecord u sprintv now scope data target =
     (let attributes =
            foldl (\<lambda>attrs kv.
                     let key = fst kv; labelVal = snd kv; val = extractValueByPath labelVal data
                     in if val \<noteq> JNull then PutStr attrs key (sprintv val)
                        else PutStr attrs key ''NOT FOUND'')
              [] (Labels target);
          logRecord =
            \<lparr>Timestamp = now,
             SeverityText = ToUpper u (LogLevel target),
             Severity = getSeverityNumber u (LogLevel target),
             Attributes = attributes,
             Body = setBodyValue data\<rparr>
      in scope\<lparr>LogRecords := LogRecords scope @ [logRecord]\<rparr>)"

text \<open>
  The parsers take \<^verbatim>\<open>json.Unmarshal\<close> as a parameter (\<open>Inl\<close> its error) and the clock as
  the sequence of its readings: the record appended as number \<open>i\<close> of a scope is stamped
  \<open>clock i\<close>.
\<close>

definition parseJSONLogs ::
  "unicode \<Rightarrow> (string \<Rightarrow> string + 'n json) \<Rightarrow> ('n json \<Rightarrow> string) \<Rightarrow> (nat \<Rightarrow> nat) \<Rightarrow>
   string \<Rightarrow> targetConfig \<Rightarrow> 'n logs \<Rightarrow> error + 'n logs" where
  "parseJSONLogs u unmarshal sprintv clock body target logs =
     (case unmarshal body of
        Inl err \<Rightarrow> Inl (UnmarshalError err)
      | Inr jsonData \<Rightarrow>
          let resource = PutStr [] ''endpoint'' (Endpoint target);
              resource = PutStr resource ''service.name'' (ServiceName target);
              scope = addLogRecord u sprintv (clock 0) \<lparr>LogRecords = []\<rparr> jsonData target
          in Inr (logs @ [\<lparr>Resource = resource, ScopeLogs = [scope]\<rparr>]))"

definition parseTextLogs ::
  "unicode \<Rightarrow> (nat \<Rightarrow> nat) \<Rightarrow> string \<Rightarrow> targetConfig \<Rightarrow> 'n logs \<Rightarrow> error + 'n logs" where
  "parseTextLogs u clock body target logs =
     (let resource = PutStr [] ''service.name'' (ServiceName target);
          resource = PutStr resource ''endpoint'' (Endpoint target);
          resource = foldl (\<lambda>attrs kv. PutStr attrs (fst kv) (snd kv)) resource (Labels target);
          lines = Split body (CHR 0x0A);
          records =
            foldl (\<lambda>records line.
                     let line = TrimSpace line
                     in if line = [] then records
                        else records @
                          [\<lparr>Timestamp = clock (length records),
                            SeverityText = ToUpper u (LogLevel target),
                            Severity = getSeverityNumber u (LogLevel target),
                            Attributes = [],
                            Body = VStr line\<rparr>])
              [] lines
      in Inr (logs @ [\<lparr>Resource = resource, ScopeLogs = [\<lparr>LogRecords = records\<rparr>]\<rparr>]))"

definition parseLogs ::
  "unicode \<Rightarrow> (string \<Rightarrow> string + 'n json) \<Rightarrow> ('n json \<Rightarrow> string) \<Rightarrow> (nat \<Rightarrow> nat) \<Rightarrow>
   response \<Rightarrow> string \<Rightarrow> targetConfig \<Rightarrow> error + 'n logs" where
  "parseLogs u unmarshal sprintv clock resp body target =
     (let logs = [];
          ct = ToLower u (ContentType resp)
      in if Contains ct ''application/json'' then parseJSONLogs u unmarshal sprintv clock body target logs
         else if Contains ct ''text'' then parseTextLogs u clock body target logs
         else parseTextLogs u clock body target logs)"

section \<open>Building the request\<close>

text \<open>
  An \<^verbatim>\<open>http.Header\<close> maps a canonical key to its values. \<^verbatim>\<open>Set\<close> and \<^verbatim>\<open>Get\<close> bring the
  key into the canonical form of \<^verbatim>\<open>textproto.CanonicalMIMEHeaderKey\<close>: a key with a byte
  that is no token byte stays as it is; otherwise the first letter and every letter after
  a hyphen are made upper case and all other letters lower case.
\<close>

definition validHeaderFieldByte :: "char \<Rightarrow> bool" where
  "validHeaderFieldByte c =
     ((97::nat) \<le> of_char c \<and> of_char c \<le> (122::nat)
      \<or> (65::nat) \<le> of_char c \<and> of_char c \<le> (90::nat)
      \<or> (48::nat) \<le> of_char c \<and> of_char c \<le> (57::nat)
      \<or> c \<in> set [CHR 0x21, CHR 0x23, CHR 0x24, CHR 0x25, CHR 0x26, CHR 0x27, CHR 0x2A,
                   CHR 0x2B, CHR 0x2D, CHR 0x2E, CHR 0x5E, CHR 0x5F, CHR 0x60, CHR 0x7C,
                   CHR 0x7E])"

fun canonicalLoop :: "bool \<Rightarrow> string \<Rightarrow> string" where
  "canonicalLoop upper [] = []"
| "canonicalLoop upper (c # a) =
     (let c = (if upper then upperByte c else lowerByte c)
      in c # canonicalLoop (c = CHR 0x2D) a)"

definition CanonicalMIMEHeaderKey :: "string \<Rightarrow> string" where
  "CanonicalMIMEHeaderKey s =
     (if list_all validHeaderFieldByte s then canonicalLoop True s else s)"

type_synonym header = "(string \<times> string list) list"

definition HeaderSet :: "header \<Rightarrow> string \<Rightarrow> string \<Rightarrow> header" where
  "HeaderSet h key value = Put h (CanonicalMIMEHeaderKey key) [value]"

definition HeaderGet :: "header \<Rightarrow> string \<Rightarrow> string" where
  "HeaderGet h key =
     (case map_of h (CanonicalMIMEHeaderKey key) of
        None \<Rightarrow> []
      | Some [] \<Rightarrow> []
      | Some (v # vs) \<Rightarrow> v)"

record request =
  reqMethod :: string
  reqURL :: string
  reqBody :: "string option"
  reqHeader :: header

text \<open>
  \<^verbatim>\<open>http.NewRequestWithContext\<close> refuses a malformed method or URL; which ones is the
  parameter \<open>newRequestErr\<close>. An empty method stands for GET. The fresh request has no
  header.
\<close>

definition NewRequest ::
  "(string \<Rightarrow> string \<Rightarrow> string option) \<Rightarrow> string \<Rightarrow> string \<Rightarrow> string option \<Rightarrow> string + request" where
  "NewRequest newRequestErr method url body =
     (case newRequestErr method url of
        Some err \<Rightarrow> Inl err
      | None \<Rightarrow>
          Inr \<lparr>reqMethod = (if method = [] then ''GET'' else method),
               reqURL = url, reqBody = body, reqHeader = []\<rparr>)"

definition createRequest ::
  "(string \<Rightarrow> string \<Rightarrow> string option) \<Rightarrow> targetConfig \<Rightarrow> string + request" where
  "createRequest newRequestErr target =
     (let body = (if targetConfig.Body target \<noteq> [] then Some (targetConfig.Body target) else None)
      in case NewRequest newRequestErr (Method target) (Endpoint target) body of
           Inl err \<Rightarrow> Inl err
         | Inr req \<Rightarrow>
             let req = req\<lparr>reqHeader :=
                         foldl (\<lambda>h kv. HeaderSet h (fst kv) (snd kv)) (reqHeader req) (Headers target)\<rparr>;
                 req =
                   (if targetConfig.Body target \<noteq> [] \<and> HeaderGet (reqHeader req) ''Content-Type'' = []
                    then
                      if HasPrefix (TrimSpace (targetConfig.Body target)) ''{''
                      then req\<lparr>reqHeader := HeaderSet (reqHeader req) ''Content-Type'' ''application/json''\<rparr>
                      else req\<lparr>reqHeader := HeaderSet (reqHeader req) ''Content-Type'' ''text/plain''\<rparr>
                    else req)
             in Inr req)"

section \<open>Polling one target\<close>

text \<open>
  One poll. \<open>doRequest\<close> is \<^verbatim>\<open>client.Do\<close> and \<open>consume\<close> is the answer of the sink's
  \<^verbatim>\<open>ConsumeLogs\<close>. The result is the error returned, if any, and the batches that were
  handed to the sink, in order.
\<close>

definition pollTarget ::
  "unicode \<Rightarrow> (string \<Rightarrow> string \<Rightarrow> string option) \<Rightarrow> (request \<Rightarrow> string + response) \<Rightarrow>
   (string \<Rightarrow> string + 'n json) \<Rightarrow> ('n json \<Rightarrow> string) \<Rightarrow> (nat \<Rightarrow> nat) \<Rightarrow>
   ('n logs \<Rightarrow> string option) \<Rightarrow> targetConfig \<Rightarrow> error option \<times> 'n logs list" where
  "pollTarget u newRequestErr doRequest unmarshal sprintv clock consume target =
     (case createRequest newRequestErr target of
        Inl err \<Rightarrow> (Some (CreateRequestError err), [])
      | Inr req \<Rightarrow>
          (case doRequest req of
             Inl err \<Rightarrow> (Some (ExecuteRequestError err), [])
           | Inr resp \<Rightarrow>
               if StatusCode resp \<ge> 400
               then (Some (HTTPError (StatusCode resp) (Status resp)), [])
               else
                 (case ReadAll resp of
                    Inl err \<Rightarrow> (Some (ReadBodyError err), [])
                  | Inr body \<Rightarrow>
                      (case parseLogs u unmarshal sprintv clock resp body target of
                         Inl err \<Rightarrow> (Some (ParseLogsError err), [])
                       | Inr logs \<Rightarrow>
                           if LogRecordCount logs > 0
                           then
                             (case consume logs of
                                Some err \<Rightarrow> (Some (ConsumeLogsError err), [logs])
                              | None \<Rightarrow> (None, [logs]))
                           else (None, [])))))"

section \<open>Validating the configuration\<close>

text \<open>
  \<^verbatim>\<open>url.ParseRequestURI\<close> of Go's \<^verbatim>\<open>net/url\<close>, as far as it accepts or refuses: the
  result is the error, if any. The raw URL must be free of control bytes and not empty;
  \<^verbatim>\<open>*\<close> is accepted; after the scheme (if any) and the query are split off, a rest that
  does not start with a slash is accepted as opaque when there is a scheme and refused
  otherwise; with a scheme, a rest that starts with two slashes has its authority parsed;
  at last the path must unescape. The parsing of the authority is the parameter
  \<open>parseAuthorityErr\<close>.
\<close>

definition stringContainsCTLByte :: "string \<Rightarrow> bool" where
  "stringContainsCTLByte s = list_ex (\<lambda>b. of_char b < (32::nat) \<or> of_char b = (127::nat)) s"

definition isLetter :: "char \<Rightarrow> bool" where
  "isLetter c =
     ((97::nat) \<le> of_char c \<and> of_char c \<le> (122::nat)
      \<or> (65::nat) \<le> of_char c \<and> of_char c \<le> (90::nat))"

definition isSchemeByte :: "char \<Rightarrow> bool" where
  "isSchemeByte c =
     ((48::nat) \<le> of_char c \<and> of_char c \<le> (57::nat)
      \<or> c \<in> set [CHR 0x2B, CHR 0x2D, CHR 0x2E])"

text \<open>
  \<^verbatim>\<open>getScheme\<close>: the loop over the bytes of the raw URL, with the bytes already passed
  as accumulator. The result is the scheme and the rest, or an error.
\<close>

fun getSchemeLoop :: "string \<Rightarrow> string \<Rightarrow> string \<Rightarrow> string + (string \<times> string)" where
  "getSchemeLoop rawURL seen [] = Inr ([], rawURL)"
| "getSchemeLoop rawURL seen (c # cs) =
     (if isLetter c then getSchemeLoop rawURL (seen @ [c]) cs
      else if isSchemeByte c then
        (if seen = [] then Inr ([], rawURL) else getSchemeLoop rawURL (seen @ [c]) cs)
      else if c = CHR 0x3A then
        (if seen = [] then Inl ''missing protocol scheme'' else Inr (seen, cs))
      else Inr ([], rawURL))"

definition getScheme :: "string \<Rightarrow> string + (string \<times> string)" where
  "getScheme rawURL = getSchemeLoop rawURL [] rawURL"

definition ishex :: "char \<Rightarrow> bool" where
  "ishex c =
     ((48::nat) \<le> of_char c \<and> of_char c \<le> (57::nat)
      \<or> (97::nat) \<le> of_char c \<and> of_char c \<le> (102::nat)
      \<or> (65::nat) \<le> of_char c \<and> of_char c \<le> (70::nat))"

text \<open>\<^verbatim>\<open>setPath\<close> fails when a percent sign is not followed by two hexadecimal digits.\<close>

fun setPathErr :: "string \<Rightarrow> string option" where
  "setPathErr [] = None"
| "setPathErr (c # s) =
     (if c = CHR 0x25 then
        (case s of
           h1 # h2 # rest \<Rightarrow>
             if ishex h1 \<and> ishex h2 then setPathErr rest else Some ''invalid URL escape''
         | _ \<Rightarrow> Some ''invalid URL escape'')
      else setPathErr s)"

definition ParseRequestURI :: "(string \<Rightarrow> string option) \<Rightarrow> string \<Rightarrow> string option" where
  "ParseRequestURI parseAuthorityErr rawURL =
     (if stringContainsCTLByte rawURL then Some ''net/url: invalid control character in URL''
      else if rawURL = [] then Some ''empty url''
      else if rawURL = ''*'' then None
      else
        (case getScheme rawURL of
           Inl err \<Rightarrow> Some err
         | Inr (scheme, rest) \<Rightarrow>
             let rest = takeWhile (\<lambda>c. c \<noteq> CHR 0x3F) rest
             in if \<not> HasPrefix rest ''/'' then
                  (if scheme \<noteq> [] then None else Some ''invalid URI for request'')
                else if scheme \<noteq> [] \<and> HasPrefix rest ''//'' then
                  (let authority = takeWhile (\<lambda>c. c \<noteq> CHR 0x2F) (drop 2 rest);
                       rest = dropWhile (\<lambda>c. c \<noteq> CHR 0x2F) (drop 2 rest)
                   in case parseAuthorityErr authority of
                        Some err \<Rightarrow> Some err
                      | None \<Rightarrow> setPathErr rest)
                else setPathErr rest))"

datatype configError =
    errNoTargets
  | errMissingEndpoint
  | errInvalidEndpoint string

record Config =
  CollectionInterval :: int
  Targets :: "targetConfig list"

definition Second :: int where
  "Second = 1000000000"

text \<open>
  Both \<^verbatim>\<open>Validate\<close> methods write the defaults into the configuration they check. The
  model returns the error, if any, with the configuration as the call leaves it.
\<close>

definition targetValidate ::
  "(string \<Rightarrow> string option) \<Rightarrow> targetConfig \<Rightarrow> configError option \<times> targetConfig" where
  "targetValidate parseAuthorityErr cfg =
     (if Endpoint cfg = [] then (Some errMissingEndpoint, cfg)
      else
        (case ParseRequestURI parseAuthorityErr (Endpoint cfg) of
           Some parseErr \<Rightarrow> (Some (errInvalidEndpoint parseErr), cfg)
         | None \<Rightarrow>
             let cfg = (if Method cfg = [] then cfg\<lparr>Method := ''GET''\<rparr> else cfg);
                 cfg = (if ServiceName cfg = [] then cfg\<lparr>ServiceName := ''logs-receiver''\<rparr> else cfg);
                 cfg = (if LogLevel cfg = [] then cfg\<lparr>LogLevel := ''info''\<rparr> else cfg)
             in (None, cfg)))"

fun validateTargets ::
  "(string \<Rightarrow> string option) \<Rightarrow> targetConfig list \<Rightarrow> configError option \<times> targetConfig list" where
  "validateTargets parseAuthorityErr [] = (None, [])"
| "validateTargets parseAuthorityErr (target # targets) =
     (case targetValidate parseAuthorityErr target of
        (Some err, target') \<Rightarrow> (Some err, target' # targets)
      | (None, target') \<Rightarrow>
          (case validateTargets parseAuthorityErr targets of
             (err, targets') \<Rightarrow> (err, target' # targets')))"

definition Validate ::
  "(string \<Rightarrow> string option) \<Rightarrow> Config \<Rightarrow> configError option \<times> Config" where
  "Validate parseAuthorityErr cfg =
     (if length (Targets cfg) = 0 then (Some errNoTargets, cfg)
      else
        let cfg = (if CollectionInterval cfg \<le> 0
                   then cfg\<lparr>CollectionInterval := 30 * Second\<rparr> else cfg)
        in case validateTargets parseAuthorityErr (Targets cfg) of
             (err, targets) \<Rightarrow> (err, cfg\<lparr>Targets := targets\<rparr>))"

section \<open>Observations\<close>

text \<open>
  Observations used to state the properties: the lines of a text body that survive the
  trimming, and the records of a batch or of a parse result (none when it failed).
\<close>

definition textLines :: "string \<Rightarrow> string list" where
  "textLines body = filter (\<lambda>line. line \<noteq> []) (map TrimSpace (Split body (CHR 0x0A)))"

definition allRecords :: "'n logs \<Rightarrow> 'n logRecord list" where
  "allRecords ld = concat (map (\<lambda>rl. concat (map LogRecords (ScopeLogs rl))) ld)"

definition recordsOf :: "error + 'n logs \<Rightarrow> 'n logRecord list" where
  "recordsOf r = (case r of Inl err \<Rightarrow> [] | Inr ld \<Rightarrow> allRecords ld)"

text \<open>
  What the result for one element contributes to the aggregate of a sequence: nothing
  when it is null, its members when it is a sequence, itself otherwise.
\<close>

definition contribution :: "'n json \<Rightarrow> 'n json list" where
  "contribution v = (case v of JNull \<Rightarrow> [] | JArr vv \<Rightarrow> vv | _ \<Rightarrow> [v])"

text \<open>
  A position in a tree: a key of a mapping or an index of a sequence at each level.
  \<open>jsonAt\<close> reads a decoded JSON value there and \<open>valueAt\<close> a body value.
\<close>

datatype step = Key string | Index nat

fun jsonAt :: "step list \<Rightarrow> 'n json \<Rightarrow> 'n json option" where
  "jsonAt [] j = Some j"
| "jsonAt (Key k # p) (JObj kvs) = (case map_of kvs k of None \<Rightarrow> None | Some c \<Rightarrow> jsonAt p c)"
| "jsonAt (Index i # p) (JArr xs) = (if i < length xs then jsonAt p (xs ! i) else None)"
| "jsonAt (s # p) j = None"

fun valueAt :: "step list \<Rightarrow> 'n pvalue \<Rightarrow> 'n pvalue option" where
  "valueAt [] v = Some v"
| "valueAt (Key k # p) (VMap kvs) = (case Get kvs k of None \<Rightarrow> None | Some c \<Rightarrow> valueAt p c)"
| "valueAt (Index i # p) (VSlice xs) = (if i < length xs then valueAt p (xs ! i) else None)"
| "valueAt (s # p) v = None"

text \<open>
  The keys of a Go map are distinct. \<open>distinctKeys\<close> holds of the decoded values whose
  mappings, at every depth, are association lists without a repeated key.
\<close>

function distinctKeys :: "'n json \<Rightarrow> bool" where
  "distinctKeys (JObj kvs) = (distinct (map fst kvs) \<and> list_all (\<lambda>kv. distinctKeys (snd kv)) kvs)"
| "distinctKeys (JArr xs) = list_all distinctKeys xs"
| "distinctKeys (JStr s) = True"
| "distinctKeys (JNum n) = True"
| "distinctKeys (JBool b) = True"
| "distinctKeys JNull = True"
  by pat_completeness auto
termination
  by (relation "measure size")
     (auto dest: size_array_elem intro: size_object_entry [of "fst kv" "snd kv" for kv, simplified])

text \<open>
  The structural tree that the specification gives as the body of a JSON record, written
  from its words: an object is a keyed value with the same keys, an array the sequence of
  the trees of its elements, a string, a number and a boolean are themselves, and null is
  the string \<^verbatim>\<open>null\<close>.
\<close>

function structuralTree :: "'n json \<Rightarrow> 'n pvalue" where
  "structuralTree (JObj kvs) = VMap (map (\<lambda>kv. (fst kv, structuralTree (snd kv))) kvs)"
| "structuralTree (JArr xs) = VSlice (map structuralTree xs)"
| "structuralTree (JStr s) = VStr s"
| "structuralTree (JNum n) = VDouble n"
| "structuralTree (JBool b) = VBool b"
| "structuralTree JNull = VStr ''null''"
  by pat_completeness auto
termination
  by (relation "measure size")
     (auto dest: size_array_elem intro: size_object_entry [of "fst kv" "snd kv" for kv, simplified])

text \<open>The attribute that the records of a scope carry under a label name.\<close>

definition attributeOf :: "string \<Rightarrow> 'n scopeLogs \<Rightarrow> 'n pvalue option list" where
  "attributeOf labelName scope = map (\<lambda>r. Get (Attributes r) labelName) (LogRecords scope)"

text \<open>\<^verbatim>\<open>strings.Join(segs, ".")\<close>: the dot-path with the given segments.\<close>

fun dotPath :: "string list \<Rightarrow> string" where
  "dotPath [] = []"
| "dotPath [s] = s"
| "dotPath (s # ss) = s @ ''.'' @ dotPath ss"

text \<open>The header of the request after the target's headers have been copied.\<close>

definition copiedHeaders :: "targetConfig \<Rightarrow> header" where
  "copiedHeaders target = foldl (\<lambda>h kv. HeaderSet h (fst kv) (snd kv)) [] (Headers target)"

text \<open>The content type that \<^verbatim>\<open>createRequest\<close> infers from a body.\<close>

definition inferredContentType :: "string \<Rightarrow> string" where
  "inferredContentType body =
     (if HasPrefix (TrimSpace body) ''{'' then ''application/json'' else ''text/plain'')"

text \<open>The defaults that \<^verbatim>\<open>targetConfig.Validate\<close> writes into a target it accepts.\<close>

definition withDefaults :: "targetConfig \<Rightarrow> targetConfig" where
  "withDefaults cfg =
     cfg\<lparr>Method := (if Method cfg = [] then ''GET'' else Method cfg),
         ServiceName := (if ServiceName cfg = [] then ''logs-receiver'' else ServiceName cfg),
         LogLevel := (if LogLevel cfg = [] then ''info'' else LogLevel cfg)\<rparr>"

text \<open>The error, if any, that \<^verbatim>\<open>targetConfig.Validate\<close> returns for a target.\<close>

definition targetError :: "(string \<Rightarrow> string option) \<Rightarrow> targetConfig \<Rightarrow> configError option" where
  "targetError parseAuthorityErr cfg =
     (if Endpoint cfg = [] then Some errMissingEndpoint
      else map_option errInvalidEndpoint (ParseRequestURI parseAuthorityErr (Endpoint cfg)))"

section \<open>Properties of the path extraction\<close>

lemma appendResult_contribution:
  "appendResult results v = results @ contribution v"
  by (cases v) (simp_all add: appendResult_def contribution_def)

lemma foldl_appendResult:
  "foldl (\<lambda>results el. appendResult results (f el)) acc node =
   acc @ concat (map (\<lambda>el. contribution (f el)) node)"
  by (induction node arbitrary: acc) (simp_all add: appendResult_contribution)

lemma extractValueByPath_empty_path:
  "extractValueByPath [] raw = JNull"
  by (simp add: extractValueByPath.simps)

lemma extractValueByPath_null:
  "extractValueByPath path JNull = JNull"
  by (simp add: extractValueByPath.simps)

lemma extractValueByPath_array:
  "extractValueByPath path (JArr node) =
     (let aggregate = concat (map (\<lambda>el. contribution (extractValueByPath path el)) node)
      in if aggregate = [] then JNull else JArr aggregate)"
proof (cases "path = []")
  case True
  then show ?thesis
    by (simp add: extractValueByPath_empty_path contribution_def)
next
  case False
  then show ?thesis
    by (subst extractValueByPath.simps) (simp add: foldl_appendResult Let_def)
qed

lemma extractValueByPath_object:
  "path \<noteq> [] \<Longrightarrow>
   extractValueByPath path (JObj node) =
     (case map_of node (SplitN2 path (CHR ''.'') ! 0) of
        None \<Rightarrow> JNull
      | Some child \<Rightarrow>
          if length (SplitN2 path (CHR ''.'')) = 2 \<and> SplitN2 path (CHR ''.'') ! 1 \<noteq> []
          then extractValueByPath (SplitN2 path (CHR ''.'') ! 1) child
          else child)"
  by (subst extractValueByPath.simps) (auto simp: Let_def split: option.splits)

lemma extractValueByPath_scalar:
  "extractValueByPath path (JBool b) = JNull"
  "extractValueByPath path (JNum n) = JNull"
  "extractValueByPath path (JStr s) = JNull"
  by (simp_all add: extractValueByPath.simps Let_def)

lemma SplitN2_company_name:
  "SplitN2 ''company.name'' (CHR ''.'') = [''company'', ''name'']"
  by (simp add: SplitN2_def)

lemma SplitN2_name:
  "SplitN2 ''name'' (CHR ''.'') = [''name'']"
  by (simp add: SplitN2_def)

lemma extract_company_name:
  "extractValueByPath ''company.name'' (JObj [(''company'', JObj [(''name'', JStr a)])]) = JStr a"
  by (simp add: extractValueByPath_object SplitN2_company_name SplitN2_name)

text \<open>
  C1. On a sequence node \<^verbatim>\<open>extractValueByPath\<close> recurses with the same path into every
  element, skips the null results, splices a result that is itself a sequence and appends
  any other result; the outcome is null when the aggregate is empty and the aggregate
  sequence otherwise, so it is never a scalar, also for a single match. Extracting
  \<^verbatim>\<open>company.name\<close> over the two mappings with names A and B gives the sequence of A and B.
\<close>

theorem extractValueByPath_sequence_aggregates:
  "extractValueByPath path (JArr node) =
     (let aggregate = concat (map (\<lambda>el. contribution (extractValueByPath path el)) node)
      in if aggregate = [] then JNull else JArr aggregate)
   \<and> contribution JNull = ([] :: 'n json list)
   \<and> contribution (JArr vv) = (vv :: 'n json list)
   \<and> contribution (JStr s) = [JStr s :: 'n json]
   \<and> contribution (JNum n) = [JNum n]
   \<and> contribution (JBool b) = [JBool b :: 'n json]
   \<and> contribution (JObj kvs) = [JObj kvs :: 'n json]
   \<and> extractValueByPath ''company.name''
        (JArr [JObj [(''company'', JObj [(''name'', JStr ''A'')])] :: 'n json]) = JArr [JStr ''A'']
   \<and> extractValueByPath ''company.name''
        (JArr [JObj [(''company'', JObj [(''name'', JStr ''A'')])],
               JObj [(''company'', JObj [(''name'', JStr ''B'')])] :: 'n json])
      = JArr [JStr ''A'', JStr ''B'']"
  by (simp add: extractValueByPath_array [of _ "_ # _"] extractValueByPath_array [of path node]
        extract_company_name contribution_def Let_def)

section \<open>Severity mapping\<close>

lemma lowerByte_upperByte: "lowerByte (upperByte c) = lowerByte c"
  by (auto simp: lowerByte_def upperByte_def)

lemma lowerByte_idem: "lowerByte (lowerByte c) = lowerByte c"
  by (auto simp: lowerByte_def)

lemma upperByte_ascii: "of_char c < (128::nat) \<Longrightarrow> of_char (upperByte c) < (128::nat)"
  by (auto simp: upperByte_def)

lemma lowerByte_ascii: "of_char c < (128::nat) \<Longrightarrow> of_char (lowerByte c) < (128::nat)"
  by (auto simp: lowerByte_def)

lemma isASCII_upper: "isASCII s \<Longrightarrow> isASCII (map upperByte s)"
  by (induction s) (simp_all add: isASCII_def upperByte_ascii)

lemma isASCII_lower: "isASCII s \<Longrightarrow> isASCII (map lowerByte s)"
  by (induction s) (simp_all add: isASCII_def lowerByte_ascii)

lemma ToLower_ascii: "isASCII s \<Longrightarrow> ToLower u s = map lowerByte s"
  by (simp add: ToLower_def)

lemma ToUpper_ascii: "isASCII s \<Longrightarrow> ToUpper u s = map upperByte s"
  by (simp add: ToUpper_def)

lemma ToLower_ToUpper_ascii: "isASCII s \<Longrightarrow> ToLower u (ToUpper u s) = ToLower u s"
  by (simp add: ToLower_ascii ToUpper_ascii isASCII_upper lowerByte_upperByte)

lemma ToLower_idem_ascii: "isASCII s \<Longrightarrow> ToLower u (ToLower u s) = ToLower u s"
  by (simp add: ToLower_ascii isASCII_lower lowerByte_idem)

lemma getSeverityNumber_ToLower:
  "getSeverityNumber u level =
     (if ToLower u level = ''trace'' then SeverityNumberTrace
      else if ToLower u level = ''debug'' then SeverityNumberDebug
      else if ToLower u level = ''info'' then SeverityNumberInfo
      else if ToLower u level = ''warn'' \<or> ToLower u level = ''warning'' then SeverityNumberWarn
      else if ToLower u level = ''error'' then SeverityNumberError
      else if ToLower u level = ''fatal'' then SeverityNumberFatal
      else SeverityNumberInfo)"
  by (simp add: getSeverityNumber_def Let_def)

lemma getSeverityNumber_cong:
  "ToLower u a = ToLower u b \<Longrightarrow> getSeverityNumber u a = getSeverityNumber u b"
  by (simp add: getSeverityNumber_ToLower)

lemma ToLower_WARNING: "ToLower u ''WARNING'' = ''warning''"
  by code_simp

lemma ToLower_warn: "ToLower u ''warn'' = ''warn''"
  by code_simp

lemma ToLower_empty: "ToLower u [] = []"
  by code_simp

text \<open>
  C5. \<^verbatim>\<open>getSeverityNumber\<close> is a total function of the level text that looks at it
  only through \<^verbatim>\<open>strings.ToLower\<close>: each severity other than info is returned exactly
  when the lower-cased text is a name of the fixed set (warn and warning share one), and
  every other text, the empty one included, gives info. WARNING gives what warn gives.
  On ASCII text, where lower-casing is the byte map of the letters, the result does not
  change when the text is upper-cased or lower-cased, and two texts that differ in the
  case of their letters only give the same severity; a text with a byte outside ASCII is
  lower-cased by the Unicode tables.
\<close>

theorem getSeverityNumber_total_case_insensitive:
  "getSeverityNumber u ''WARNING'' = getSeverityNumber u ''warn''
   \<and> (getSeverityNumber u level = SeverityNumberTrace) = (ToLower u level = ''trace'')
   \<and> (getSeverityNumber u level = SeverityNumberDebug) = (ToLower u level = ''debug'')
   \<and> (getSeverityNumber u level = SeverityNumberWarn)
       = (ToLower u level = ''warn'' \<or> ToLower u level = ''warning'')
   \<and> (getSeverityNumber u level = SeverityNumberError) = (ToLower u level = ''error'')
   \<and> (getSeverityNumber u level = SeverityNumberFatal) = (ToLower u level = ''fatal'')
   \<and> (getSeverityNumber u level = SeverityNumberInfo)
       = (ToLower u level \<notin> set [''trace'', ''debug'', ''warn'', ''warning'', ''error'', ''fatal''])
   \<and> getSeverityNumber u [] = SeverityNumberInfo
   \<and> (isASCII level \<longrightarrow>
        ToLower u level = map lowerByte level
        \<and> getSeverityNumber u (ToUpper u level) = getSeverityNumber u level
        \<and> getSeverityNumber u (ToLower u level) = getSeverityNumber u level)
   \<and> (isASCII level \<longrightarrow> isASCII other \<longrightarrow> map lowerByte level = map lowerByte other \<longrightarrow>
        getSeverityNumber u level = getSeverityNumber u other)
   \<and> (\<not> isASCII level \<longrightarrow> ToLower u level = MapToLower u level)"
proof -
  have a: "getSeverityNumber u ''WARNING'' = getSeverityNumber u ''warn''"
    by (simp add: getSeverityNumber_ToLower ToLower_WARNING ToLower_warn)
  have d: "(getSeverityNumber u level = SeverityNumberTrace) = (ToLower u level = ''trace'')"
    "(getSeverityNumber u level = SeverityNumberDebug) = (ToLower u level = ''debug'')"
    "(getSeverityNumber u level = SeverityNumberWarn)
       = (ToLower u level = ''warn'' \<or> ToLower u level = ''warning'')"
    "(getSeverityNumber u level = SeverityNumberError) = (ToLower u level = ''error'')"
    "(getSeverityNumber u level = SeverityNumberFatal) = (ToLower u level = ''fatal'')"
    "(getSeverityNumber u level = SeverityNumberInfo)
       = (ToLower u level \<notin> set [''trace'', ''debug'', ''warn'', ''warning'', ''error'', ''fatal''])"
    by (auto simp: getSeverityNumber_ToLower)
  have e: "getSeverityNumber u [] = SeverityNumberInfo"
    by (simp add: getSeverityNumber_ToLower ToLower_empty)
  have f: "isASCII level \<longrightarrow>
        ToLower u level = map lowerByte level
        \<and> getSeverityNumber u (ToUpper u level) = getSeverityNumber u level
        \<and> getSeverityNumber u (ToLower u level) = getSeverityNumber u level"
  proof
    assume asc: "isASCII level"
    have "getSeverityNumber u (ToUpper u level) = getSeverityNumber u level"
      using ToLower_ToUpper_ascii [OF asc] by (rule getSeverityNumber_cong)
    moreover have "getSeverityNumber u (ToLower u level) = getSeverityNumber u level"
      using ToLower_idem_ascii [OF asc] by (rule getSeverityNumber_cong)
    ultimately show "ToLower u level = map lowerByte level
        \<and> getSeverityNumber u (ToUpper u level) = getSeverityNumber u level
        \<and> getSeverityNumber u (ToLower u level) = getSeverityNumber u level"
      using ToLower_ascii [OF asc] by blast
  qed
  have g: "isASCII level \<longrightarrow> isASCII other \<longrightarrow> map lowerByte level = map lowerByte other \<longrightarrow>
        getSeverityNumber u level = getSeverityNumber u other"
  proof (intro impI)
    assume "isASCII level" "isASCII other" "map lowerByte level = map lowerByte other"
    then have "ToLower u level = ToLower u other"
      by (simp only: ToLower_ascii)
    then show "getSeverityNumber u level = getSeverityNumber u other"
      by (rule getSeverityNumber_cong)
  qed
  have h: "\<not> isASCII level \<longrightarrow> ToLower u level = MapToLower u level"
    by (simp add: ToLower_def)
  from a d e f g h show ?thesis by blast
qed

theorem getSeverityNumber_case_insensitive_witness:
  "isASCII ''Error'' \<and> isASCII ''eRROR''
   \<and> map lowerByte ''Error'' = map lowerByte ''eRROR''
   \<and> getSeverityNumber noCaseMapping ''Error'' = getSeverityNumber noCaseMapping ''eRROR''
   \<and> getSeverityNumber noCaseMapping (ToUpper noCaseMapping ''Error'')
       = getSeverityNumber noCaseMapping ''Error''
   \<and> getSeverityNumber noCaseMapping ''Error'' = SeverityNumberError
   \<and> \<not> isASCII [CHR ''W'', CHR ''A'', CHR ''R'', CHR ''N'', CHR 0xC4, CHR 0xB0, CHR ''N'', CHR ''G'']
   \<and> ToLower noCaseMapping
         [CHR ''W'', CHR ''A'', CHR ''R'', CHR ''N'', CHR 0xC4, CHR 0xB0, CHR ''N'', CHR ''G'']
       = MapToLower noCaseMapping
         [CHR ''W'', CHR ''A'', CHR ''R'', CHR ''N'', CHR 0xC4, CHR 0xB0, CHR ''N'', CHR ''G'']"
proof -
  let ?w = "[CHR ''W'', CHR ''A'', CHR ''R'', CHR ''N'', CHR 0xC4, CHR 0xB0, CHR ''N'', CHR ''G'']"
  have a1: "isASCII ''Error''" by code_simp
  have a2: "isASCII ''eRROR''" by code_simp
  have l: "map lowerByte ''Error'' = map lowerByte ''eRROR''" by code_simp
  have le: "ToLower noCaseMapping ''Error'' = ''error''" by code_simp
  have n: "\<not> isASCII ?w" by code_simp
  note t = getSeverityNumber_total_case_insensitive [of noCaseMapping "''Error''" "''eRROR''"]
  note t' = getSeverityNumber_total_case_insensitive [of noCaseMapping ?w "[]"]
  from t a1 a2 l
  have same: "getSeverityNumber noCaseMapping ''Error'' = getSeverityNumber noCaseMapping ''eRROR''"
    by blast
  from t a1
  have upper: "getSeverityNumber noCaseMapping (ToUpper noCaseMapping ''Error'')
      = getSeverityNumber noCaseMapping ''Error''"
    by blast
  from t le
  have err: "getSeverityNumber noCaseMapping ''Error'' = SeverityNumberError"
    by blast
  from t' n
  have uni: "ToLower noCaseMapping ?w = MapToLower noCaseMapping ?w"
    by blast
  from a1 a2 l same upper err n uni show ?thesis by blast
qed

section \<open>Text bodies\<close>

lemma LogRecordCount_allRecords: "LogRecordCount ld = length (allRecords ld)"
  by (simp add: LogRecordCount_def allRecords_def length_concat comp_def)

lemma text_loop_bodies:
  "map Body
     (foldl (\<lambda>records line.
               if TrimSpace line = [] then records
               else records @
                 [\<lparr>Timestamp = clock (length records), SeverityText = st, Severity = sn,
                   Attributes = [], Body = VStr (TrimSpace line)\<rparr>])
        acc lines)
   = map Body acc @ map VStr (filter (\<lambda>line. line \<noteq> []) (map TrimSpace lines))"
  by (induction lines arbitrary: acc) simp_all

lemma parseTextLogs_records:
  "map Body (recordsOf (parseTextLogs u clock body target [])) = map VStr (textLines body)"
  by (simp add: parseTextLogs_def recordsOf_def allRecords_def Let_def text_loop_bodies
        textLines_def)

lemma parseTextLogs_succeeds:
  "\<exists>ld. parseTextLogs u clock body target ([] :: 'n logs) = Inr ld"
  by (simp add: parseTextLogs_def Let_def)

lemma parseTextLogs_count:
  "length (recordsOf (parseTextLogs u clock body target ([] :: 'n logs))) = length (textLines body)"
proof -
  have "length (map Body (recordsOf (parseTextLogs u clock body target ([] :: 'n logs))))
      = length (map VStr (textLines body) :: 'n pvalue list)"
    by (simp only: parseTextLogs_records)
  then show ?thesis by simp
qed

lemma Split_example:
  "Split ''alpha\<newline>beta\<newline>\<newline> gamma '' (CHR 0x0A) = [''alpha'', ''beta'', [], '' gamma '']"
  by simp

lemma textLines_example:
  "textLines ''alpha\<newline>beta\<newline>\<newline> gamma '' = [''alpha'', ''beta'', ''gamma'']"
  by code_simp

lemma textLines_no_break_space:
  "textLines [CHR ''a'', CHR 0x0A, CHR 0xC2, CHR 0xA0, CHR 0x0A, CHR ''b''] = [''a'', ''b'']"
  by code_simp

lemma parseLogs_text_plain:
  "parseLogs u unmarshal sprintv clock
     \<lparr>StatusCode = 200, Status = ''200 OK'', ContentType = ''text/plain'', ReadAll = Inr body\<rparr>
     body target = parseTextLogs u clock body target []"
proof -
  have "ToLower u ''text/plain'' = ''text/plain''" by code_simp
  then show ?thesis by (simp add: parseLogs_def Let_def)
qed

lemma parseLogs_text_branch:
  "\<not> Contains (ToLower u (ContentType resp)) ''application/json'' \<Longrightarrow>
   parseLogs u unmarshal sprintv clock resp body target = parseTextLogs u clock body target []"
  by (simp add: parseLogs_def Let_def)

text \<open>
  C3. Every content type that does not contain \<^verbatim>\<open>application/json\<close> leads to the text
  parser. The text parser splits the body at newlines, trims each line and drops the
  lines that are empty after trimming; it never fails, and its records are, in order, one
  per surviving line with the trimmed line as body, so the record count is the number of
  surviving lines. Trimming removes Unicode white space: a line that holds only a
  no-break space is dropped. The body of alpha, beta, an empty line and gamma between
  blanks gives the three records alpha, beta and gamma.
\<close>

theorem parseTextLogs_one_record_per_line:
  "(\<exists>ld. parseTextLogs u clock body target ([] :: 'n logs) = Inr ld
         \<and> LogRecordCount ld = length (textLines body))
   \<and> map Body (recordsOf (parseTextLogs u clock body target ([] :: 'n logs)))
       = map VStr (textLines body)
   \<and> textLines body = filter (\<lambda>line. line \<noteq> []) (map TrimSpace (Split body (CHR 0x0A)))
   \<and> textLines [CHR ''a'', CHR 0x0A, CHR 0xC2, CHR 0xA0, CHR 0x0A, CHR ''b''] = [''a'', ''b'']
   \<and> (\<not> Contains (ToLower u (ContentType resp)) ''application/json'' \<longrightarrow>
        parseLogs u unmarshal sprintv clock resp body target
          = parseTextLogs u clock body target ([] :: 'n logs))
   \<and> map Body (recordsOf (parseLogs u unmarshal sprintv clock
         \<lparr>StatusCode = 200, Status = ''200 OK'', ContentType = ''text/plain'',
          ReadAll = Inr ''alpha\<newline>beta\<newline>\<newline> gamma ''\<rparr>
         ''alpha\<newline>beta\<newline>\<newline> gamma '' target))
      = [VStr ''alpha'', VStr ''beta'', VStr ''gamma'' :: 'n pvalue]"
proof -
  have c: "\<not> Contains (ToLower u (ContentType resp)) ''application/json'' \<longrightarrow>
        parseLogs u unmarshal sprintv clock resp body target
          = parseTextLogs u clock body target ([] :: 'n logs)"
    by (simp add: parseLogs_text_branch)
  obtain ld :: "'n logs" where ld: "parseTextLogs u clock body target [] = Inr ld"
    using parseTextLogs_succeeds by blast
  have "LogRecordCount ld = length (textLines body)"
    using parseTextLogs_count [of u clock body target, where ?'n = 'n] ld
    by (simp add: recordsOf_def LogRecordCount_allRecords)
  with ld have a: "\<exists>ld. parseTextLogs u clock body target ([] :: 'n logs) = Inr ld
      \<and> LogRecordCount ld = length (textLines body)"
    by blast
  have b: "map Body (recordsOf (parseLogs u unmarshal sprintv clock
         \<lparr>StatusCode = 200, Status = ''200 OK'', ContentType = ''text/plain'',
          ReadAll = Inr ''alpha\<newline>beta\<newline>\<newline> gamma ''\<rparr>
         ''alpha\<newline>beta\<newline>\<newline> gamma '' target))
      = [VStr ''alpha'', VStr ''beta'', VStr ''gamma'' :: 'n pvalue]"
    by (simp only: parseLogs_text_plain parseTextLogs_records textLines_example) simp
  from a b c show ?thesis
    by (simp add: parseTextLogs_records textLines_no_break_space)
       (simp add: textLines_def)
qed

lemma ToLower_octet_stream:
  "ToLower u ''application/octet-stream'' = ''application/octet-stream''"
  by code_simp

lemma textLines_two_lines:
  "textLines ''line1\<newline>line2'' = [''line1'', ''line2'']"
  by code_simp

theorem parseTextLogs_one_record_per_line_witness:
  "\<not> Contains (ToLower noCaseMapping ''application/octet-stream'') ''application/json''
   \<and> map Body (recordsOf (parseLogs noCaseMapping
         (\<lambda>body. Inl ''invalid character'' :: string + nat json) (\<lambda>v. []) (\<lambda>i. 0)
         \<lparr>StatusCode = 200, Status = ''200 OK'', ContentType = ''application/octet-stream'',
          ReadAll = Inr ''line1\<newline>line2''\<rparr>
         ''line1\<newline>line2''
         \<lparr>Endpoint = ''http://example.com'', Method = ''GET'', Body = [], Headers = [],
          ServiceName = ''logs-receiver'', LogLevel = ''info'', Labels = []\<rparr>))
      = [VStr ''line1'', VStr ''line2'']"
  using parseTextLogs_one_record_per_line
    [where u = noCaseMapping and clock = "\<lambda>i. 0" and body = "''line1\<newline>line2''"
       and unmarshal = "\<lambda>body. Inl ''invalid character'' :: string + nat json"
       and sprintv = "\<lambda>v. []"
       and resp = "\<lparr>StatusCode = 200, Status = ''200 OK'',
          ContentType = ''application/octet-stream'', ReadAll = Inr ''line1\<newline>line2''\<rparr>"
       and target = "\<lparr>Endpoint = ''http://example.com'', Method = ''GET'', Body = [],
          Headers = [], ServiceName = ''logs-receiver'', LogLevel = ''info'', Labels = []\<rparr>"]
  by (simp add: ToLower_octet_stream textLines_two_lines)

section \<open>Properties of the body conversion\<close>

lemma Put_fresh:
  "k \<notin> fst ` set m \<Longrightarrow> Put m k v = m @ [(k, v)]"
  by (induction m) auto

lemma foldl_Put_distinct:
  "distinct (map fst kvs) \<Longrightarrow> fst ` set acc \<inter> fst ` set kvs = {} \<Longrightarrow>
   foldl (\<lambda>m kv. Put m (fst kv) (f (snd kv))) acc kvs = acc @ map (\<lambda>kv. (fst kv, f (snd kv))) kvs"
proof (induction kvs arbitrary: acc)
  case Nil
  then show ?case by simp
next
  case (Cons kv kvs)
  have fresh: "fst kv \<notin> fst ` set acc"
    using Cons.prems(2) by auto
  have disj: "fst ` set (acc @ [(fst kv, f (snd kv))]) \<inter> fst ` set kvs = {}"
    using Cons.prems by auto
  have "foldl (\<lambda>m kv. Put m (fst kv) (f (snd kv))) acc (kv # kvs)
      = foldl (\<lambda>m kv. Put m (fst kv) (f (snd kv))) (acc @ [(fst kv, f (snd kv))]) kvs"
    by (simp add: Put_fresh [OF fresh])
  also have "\<dots> = (acc @ [(fst kv, f (snd kv))]) @ map (\<lambda>kv. (fst kv, f (snd kv))) kvs"
    using Cons.prems(1) by (intro Cons.IH [OF _ disj]) simp
  finally show ?case by simp
qed

lemma foldl_snoc_map:
  "foldl (\<lambda>s elem. s @ [f elem]) acc xs = acc @ map f xs"
  by (induction xs arbitrary: acc) simp_all

lemma setBodyValue_array:
  "setBodyValue (JArr xs) = VSlice (map setBodyValue xs)"
  by (simp add: foldl_snoc_map)

lemma setBodyValue_object:
  "distinct (map fst kvs) \<Longrightarrow>
   setBodyValue (JObj kvs) = VMap (map (\<lambda>kv. (fst kv, setBodyValue (snd kv))) kvs)"
  by (simp add: foldl_Put_distinct)

lemma map_of_converted:
  "map_of (map (\<lambda>kv. (fst kv, f (snd kv))) kvs) k = map_option f (map_of kvs k)"
  by (induction kvs) auto

lemma distinctKeys_child:
  "distinctKeys (JObj kvs) \<Longrightarrow> map_of kvs k = Some c \<Longrightarrow> distinctKeys c"
  by (auto simp: list_all_iff dest!: map_of_SomeD)

lemma distinctKeys_elem:
  "distinctKeys (JArr xs) \<Longrightarrow> i < length xs \<Longrightarrow> distinctKeys (xs ! i)"
  by (simp add: list_all_length)

lemma valueAt_setBodyValue:
  "distinctKeys data \<Longrightarrow> jsonAt p data = Some v \<Longrightarrow>
   valueAt p (setBodyValue data) = Some (setBodyValue v)"
proof (induction p data rule: jsonAt.induct)
  case (1 j)
  then show ?case by simp
next
  case (2 k p kvs)
  from "2.prems"(2) obtain c where c: "map_of kvs k = Some c" and v: "jsonAt p c = Some v"
    by (auto split: option.splits)
  have dc: "distinctKeys c"
    using "2.prems"(1) c by (rule distinctKeys_child)
  have d: "distinct (map fst kvs)"
    using "2.prems"(1) by simp
  have "valueAt p (setBodyValue c) = Some (setBodyValue v)"
    using "2.IH" [OF c dc v] .
  then show ?case
    by (simp add: setBodyValue_object [OF d] Get_def map_of_converted c del: setBodyValue.simps)
next
  case (3 i p xs)
  from "3.prems"(2) have i: "i < length xs" and v: "jsonAt p (xs ! i) = Some v"
    by (auto split: if_splits)
  have "distinctKeys (xs ! i)"
    using "3.prems"(1) i by (rule distinctKeys_elem)
  then have "valueAt p (setBodyValue (xs ! i)) = Some (setBodyValue v)"
    using "3.IH" [OF i] v by simp
  then show ?case
    using i by (simp add: setBodyValue_array del: setBodyValue.simps)
qed simp_all

text \<open>
  C6. The body conversion turns a JSON null into the string \<^verbatim>\<open>null\<close>, a sequence into
  the sequence of its converted elements and a mapping into a mapping with the same keys
  bound to the converted children. Hence whatever stands at a position of the decoded
  tree stands converted at the same position of the body: no field is dropped, and a null
  at any depth is found there as the string \<^verbatim>\<open>null\<close>.
\<close>

theorem setBodyValue_null_preserved_at_any_depth:
  "setBodyValue (JNull :: 'n json) = VStr ''null''
   \<and> setBodyValue (JArr xs) = VSlice (map setBodyValue (xs :: 'n json list))
   \<and> (distinct (map fst kvs) \<longrightarrow>
        setBodyValue (JObj kvs) = VMap (map (\<lambda>kv. (fst kv, setBodyValue (snd kv))) (kvs :: (string \<times> 'n json) list)))
   \<and> (distinctKeys data \<longrightarrow> jsonAt p data = Some v \<longrightarrow>
        valueAt p (setBodyValue data) = Some (setBodyValue (v :: 'n json)))
   \<and> (distinctKeys data \<longrightarrow> jsonAt p data = Some JNull \<longrightarrow>
        valueAt p (setBodyValue data) = Some (VStr ''null''))"
proof -
  have n: "distinctKeys data \<Longrightarrow> jsonAt p data = Some JNull \<Longrightarrow>
      valueAt p (setBodyValue data) = Some (VStr ''null'')"
    using valueAt_setBodyValue [of data p JNull] by simp
  show ?thesis
    using n by (simp add: setBodyValue_array setBodyValue_object valueAt_setBodyValue
        del: setBodyValue.simps(1,2))
qed

theorem setBodyValue_null_preserved_witness:
  "distinct (map fst [(''id'', JNum (1::nat)), (''tags'', JArr [JStr ''x'', JNull])])
   \<and> distinctKeys (JObj [(''id'', JNum (1::nat)), (''tags'', JArr [JStr ''x'', JNull])])
   \<and> jsonAt [Key ''tags'', Index 1] (JObj [(''id'', JNum (1::nat)), (''tags'', JArr [JStr ''x'', JNull])])
       = Some JNull
   \<and> setBodyValue (JObj [(''id'', JNum (1::nat)), (''tags'', JArr [JStr ''x'', JNull])])
       = VMap [(''id'', VDouble 1), (''tags'', VSlice [VStr ''x'', VStr ''null''])]
   \<and> valueAt [Key ''tags'', Index 1]
         (setBodyValue (JObj [(''id'', JNum (1::nat)), (''tags'', JArr [JStr ''x'', JNull])]))
       = Some (VStr ''null'')"
  using setBodyValue_null_preserved_at_any_depth
    [of "[JStr ''x'', JNull]" "[(''id'', JNum (1::nat)), (''tags'', JArr [JStr ''x'', JNull])]"
        "JObj [(''id'', JNum (1::nat)), (''tags'', JArr [JStr ''x'', JNull])]"
        "[Key ''tags'', Index 1]" JNull]
  by (simp add: Get_def)

section \<open>JSON bodies\<close>

lemma addLogRecord_bodies:
  "map Body (LogRecords (addLogRecord u sprintv now scope data target))
   = map Body (LogRecords scope) @ [setBodyValue data]"
  by (simp add: addLogRecord_def Let_def del: setBodyValue.simps)

lemma addLogRecord_length:
  "length (LogRecords (addLogRecord u sprintv now scope data target))
   = Suc (length (LogRecords scope))"
  by (simp add: addLogRecord_def Let_def)

lemma parseJSONLogs_ok:
  "unmarshal body = Inr data \<Longrightarrow>
   \<exists>resource. parseJSONLogs u unmarshal sprintv clock body target [] =
     Inr [\<lparr>Resource = resource,
           ScopeLogs = [addLogRecord u sprintv (clock 0) \<lparr>LogRecords = []\<rparr> data target]\<rparr>]"
  by (simp add: parseJSONLogs_def Let_def)

lemma parseLogs_json:
  "Contains (ToLower u (ContentType resp)) ''application/json'' \<Longrightarrow>
   parseLogs u unmarshal sprintv clock resp body target
   = parseJSONLogs u unmarshal sprintv clock body target []"
  by (simp add: parseLogs_def Let_def)

lemma parseJSONLogs_bodies:
  "unmarshal body = Inr data \<Longrightarrow>
   map Body (recordsOf (parseJSONLogs u unmarshal sprintv clock body target [])) = [setBodyValue data]"
  using parseJSONLogs_ok [of unmarshal body data u sprintv clock target]
  by (auto simp: recordsOf_def allRecords_def addLogRecord_bodies simp del: setBodyValue.simps)

lemma parseJSONLogs_count:
  "unmarshal body = Inr data \<Longrightarrow>
   \<exists>ld. parseJSONLogs u unmarshal sprintv clock body target [] = Inr ld \<and> LogRecordCount ld = 1"
  using parseJSONLogs_ok [of unmarshal body data u sprintv clock target]
  by (auto simp: LogRecordCount_def addLogRecord_length)

lemma setBodyValue_structuralTree:
  "distinctKeys data \<Longrightarrow> setBodyValue data = structuralTree data"
proof (induction data rule: structuralTree.induct)
  case (1 kvs)
  have d: "distinct (map fst kvs)" using "1.prems" by simp
  have "setBodyValue (snd kv) = structuralTree (snd kv)" if "kv \<in> set kvs" for kv
    using that "1.prems" by (intro "1.IH") (auto simp: list_all_iff)
  then have "map (\<lambda>kv. (fst kv, setBodyValue (snd kv))) kvs
      = map (\<lambda>kv. (fst kv, structuralTree (snd kv))) kvs"
    by simp
  then show ?case
    by (simp add: setBodyValue_object [OF d] del: setBodyValue.simps)
next
  case (2 xs)
  have "setBodyValue x = structuralTree x" if "x \<in> set xs" for x
    using that "2.prems" by (intro "2.IH") (auto simp: list_all_iff)
  then have "map setBodyValue xs = map structuralTree xs"
    by simp
  then show ?case
    by (simp add: setBodyValue_array del: setBodyValue.simps)
qed simp_all

lemma distinctKeys_at:
  "distinctKeys data \<Longrightarrow> jsonAt p data = Some v \<Longrightarrow> distinctKeys v"
proof (induction p data rule: jsonAt.induct)
  case (1 j)
  then show ?case by simp
next
  case (2 k p kvs)
  from "2.prems"(2) obtain c where c: "map_of kvs k = Some c" and v: "jsonAt p c = Some v"
    by (auto split: option.splits)
  have "distinctKeys c"
    using "2.prems"(1) c by (rule distinctKeys_child)
  then show ?case
    using "2.IH" [OF c] v by blast
next
  case (3 i p xs)
  from "3.prems"(2) have i: "i < length xs" and v: "jsonAt p (xs ! i) = Some v"
    by (auto split: if_splits)
  have "distinctKeys (xs ! i)"
    using "3.prems"(1) i by (rule distinctKeys_elem)
  then show ?case
    using "3.IH" [OF i] v by blast
qed simp_all

lemma valueAt_body_leaf:
  "distinctKeys data \<Longrightarrow> jsonAt p data = Some v \<Longrightarrow>
   map (valueAt p) [setBodyValue data] = [Some (structuralTree v)]"
proof -
  assume dk: "distinctKeys data" and at: "jsonAt p data = Some v"
  have "distinctKeys v"
    using dk at by (rule distinctKeys_at)
  then show ?thesis
    using valueAt_setBodyValue [OF dk at] by (simp add: setBodyValue_structuralTree)
qed

text \<open>
  C2. Under a JSON content type, a body that decodes gives a batch of exactly one record
  whose body is the conversion of the whole decoded value, whatever that value is: a
  string, a number and a boolean are the body themselves and null is the string
  \<^verbatim>\<open>null\<close>; a top-level array gives the sequence of the converted elements, as long
  as the array. For a payload whose objects have distinct keys the body is the structural
  tree of the specification, so a top-level object gives the mapping of the same keys to
  the trees of the children, and a string, number, boolean or null at any position of the
  payload stands at the same position of the body.
\<close>

theorem parseLogs_json_single_record:
  "unmarshal body = Inr data \<Longrightarrow>
   Contains (ToLower u (ContentType resp)) ''application/json'' \<Longrightarrow>
   (\<exists>ld. parseLogs u unmarshal sprintv clock resp body target = Inr ld \<and> LogRecordCount ld = 1)
   \<and> (data = JStr s \<longrightarrow>
        map Body (recordsOf (parseLogs u unmarshal sprintv clock resp body target)) = [VStr s])
   \<and> (data = JNum n \<longrightarrow>
        map Body (recordsOf (parseLogs u unmarshal sprintv clock resp body target)) = [VDouble n])
   \<and> (data = JBool b \<longrightarrow>
        map Body (recordsOf (parseLogs u unmarshal sprintv clock resp body target)) = [VBool b])
   \<and> (data = JNull \<longrightarrow>
        map Body (recordsOf (parseLogs u unmarshal sprintv clock resp body target))
          = [VStr ''null''])
   \<and> (data = JArr xs \<longrightarrow>
        (\<exists>elems. map Body (recordsOf (parseLogs u unmarshal sprintv clock resp body target))
                   = [VSlice elems] \<and> length elems = length xs))
   \<and> (distinctKeys data \<longrightarrow>
        map Body (recordsOf (parseLogs u unmarshal sprintv clock resp body target))
          = [structuralTree data])
   \<and> (distinctKeys data \<longrightarrow> data = JArr xs \<longrightarrow>
        map Body (recordsOf (parseLogs u unmarshal sprintv clock resp body target))
          = [VSlice (map structuralTree xs)])
   \<and> (distinctKeys data \<longrightarrow> data = JObj kvs \<longrightarrow>
        map Body (recordsOf (parseLogs u unmarshal sprintv clock resp body target))
          = [VMap (map (\<lambda>kv. (fst kv, structuralTree (snd kv))) kvs)])
   \<and> (distinctKeys data \<longrightarrow> jsonAt p data = Some v \<longrightarrow>
        map (valueAt p)
          (map Body (recordsOf (parseLogs u unmarshal sprintv clock resp body target)))
          = [Some (structuralTree v)])
   \<and> structuralTree (JStr s) = (VStr s :: 'n pvalue)
   \<and> structuralTree (JNum n) = VDouble n
   \<and> structuralTree (JBool b) = (VBool b :: 'n pvalue)
   \<and> structuralTree (JNull :: 'n json) = VStr ''null''"
proof -
  assume un: "unmarshal body = Inr data"
    and c: "Contains (ToLower u (ContentType resp)) ''application/json''"
  note pl = parseLogs_json [OF c, of unmarshal sprintv clock body target]
  have one: "\<exists>ld. parseLogs u unmarshal sprintv clock resp body target = Inr ld \<and> LogRecordCount ld = 1"
    unfolding pl using un by (rule parseJSONLogs_count)
  have bodies: "map Body (recordsOf (parseLogs u unmarshal sprintv clock resp body target))
      = [setBodyValue data]"
    unfolding pl using un by (rule parseJSONLogs_bodies)
  have str: "data = JStr s \<longrightarrow>
        map Body (recordsOf (parseLogs u unmarshal sprintv clock resp body target)) = [VStr s]"
    using bodies by simp
  have num: "data = JNum n \<longrightarrow>
        map Body (recordsOf (parseLogs u unmarshal sprintv clock resp body target)) = [VDouble n]"
    using bodies by simp
  have bool: "data = JBool b \<longrightarrow>
        map Body (recordsOf (parseLogs u unmarshal sprintv clock resp body target)) = [VBool b]"
    using bodies by simp
  have null: "data = JNull \<longrightarrow>
        map Body (recordsOf (parseLogs u unmarshal sprintv clock resp body target))
          = [VStr ''null'']"
    using bodies by simp
  have arr: "data = JArr xs \<longrightarrow>
        (\<exists>elems. map Body (recordsOf (parseLogs u unmarshal sprintv clock resp body target))
                   = [VSlice elems] \<and> length elems = length xs)"
    using bodies by (simp add: setBodyValue_array del: setBodyValue.simps)
  have tree: "distinctKeys data \<longrightarrow>
        map Body (recordsOf (parseLogs u unmarshal sprintv clock resp body target))
          = [structuralTree data]"
    using bodies by (simp add: setBodyValue_structuralTree del: setBodyValue.simps)
  have arrt: "distinctKeys data \<longrightarrow> data = JArr xs \<longrightarrow>
        map Body (recordsOf (parseLogs u unmarshal sprintv clock resp body target))
          = [VSlice (map structuralTree xs)]"
  proof (intro impI)
    assume dk: "distinctKeys data" and d: "data = JArr xs"
    from tree dk
    have "map Body (recordsOf (parseLogs u unmarshal sprintv clock resp body target))
        = [structuralTree data]"
      by blast
    then show "map Body (recordsOf (parseLogs u unmarshal sprintv clock resp body target))
          = [VSlice (map structuralTree xs)]"
      by (simp add: d)
  qed
  have objt: "distinctKeys data \<longrightarrow> data = JObj kvs \<longrightarrow>
        map Body (recordsOf (parseLogs u unmarshal sprintv clock resp body target))
          = [VMap (map (\<lambda>kv. (fst kv, structuralTree (snd kv))) kvs)]"
  proof (intro impI)
    assume dk: "distinctKeys data" and d: "data = JObj kvs"
    from tree dk
    have "map Body (recordsOf (parseLogs u unmarshal sprintv clock resp body target))
        = [structuralTree data]"
      by blast
    then show "map Body (recordsOf (parseLogs u unmarshal sprintv clock resp body target))
          = [VMap (map (\<lambda>kv. (fst kv, structuralTree (snd kv))) kvs)]"
      by (simp add: d)
  qed
  have pos: "distinctKeys data \<longrightarrow> jsonAt p data = Some v \<longrightarrow>
        map (valueAt p)
          (map Body (recordsOf (parseLogs u unmarshal sprintv clock resp body target)))
          = [Some (structuralTree v)]"
    unfolding bodies using valueAt_body_leaf [of data p v] by blast
  have leaves: "structuralTree (JStr s) = (VStr s :: 'n pvalue)"
    "structuralTree (JNum n) = VDouble n"
    "structuralTree (JBool b) = (VBool b :: 'n pvalue)"
    "structuralTree (JNull :: 'n json) = VStr ''null''"
    by simp_all
  from one str num bool null arr tree arrt objt pos leaves show ?thesis by blast
qed

lemma ToLower_application_json:
  "ToLower u ''application/json'' = ''application/json''"
  by code_simp

lemma Contains_application_json:
  "Contains (ToLower u ''application/json'') ''application/json''"
  by (simp add: ToLower_application_json)

theorem parseLogs_json_single_record_witness:
  "Contains (ToLower noCaseMapping ''application/json'') ''application/json''
   \<and> (\<exists>ld. parseLogs noCaseMapping
           (\<lambda>body. Inr (JArr [JObj [(''id'', JNum (1::nat)), (''company'', JObj [(''name'', JStr ''Romaguera-Crona'')])],
                              JObj [(''id'', JNum 2), (''company'', JObj [(''name'', JStr ''Deckow-Crist'')])]]))
           (\<lambda>v. []) (\<lambda>i. 0)
           \<lparr>StatusCode = 200, Status = ''200 OK'', ContentType = ''application/json'', ReadAll = Inr []\<rparr>
           [] \<lparr>Endpoint = ''http://example.com'', Method = ''GET'', Body = [], Headers = [],
               ServiceName = ''logs-receiver'', LogLevel = ''info'',
               Labels = [(''companies'', ''company.name'')]\<rparr> = Inr ld
         \<and> LogRecordCount ld = 1)
   \<and> distinctKeys (JArr [JObj [(''id'', JNum (1::nat)), (''company'', JObj [(''name'', JStr ''Romaguera-Crona'')])],
                              JObj [(''id'', JNum 2), (''company'', JObj [(''name'', JStr ''Deckow-Crist'')])]])
   \<and> map Body (recordsOf (parseLogs noCaseMapping
           (\<lambda>body. Inr (JArr [JObj [(''id'', JNum (1::nat)), (''company'', JObj [(''name'', JStr ''Romaguera-Crona'')])],
                              JObj [(''id'', JNum 2), (''company'', JObj [(''name'', JStr ''Deckow-Crist'')])]]))
           (\<lambda>v. []) (\<lambda>i. 0)
           \<lparr>StatusCode = 200, Status = ''200 OK'', ContentType = ''application/json'', ReadAll = Inr []\<rparr>
           [] \<lparr>Endpoint = ''http://example.com'', Method = ''GET'', Body = [], Headers = [],
               ServiceName = ''logs-receiver'', LogLevel = ''info'',
               Labels = [(''companies'', ''company.name'')]\<rparr>))
      = [VSlice [VMap [(''id'', VDouble 1), (''company'', VMap [(''name'', VStr ''Romaguera-Crona'')])],
                 VMap [(''id'', VDouble 2), (''company'', VMap [(''name'', VStr ''Deckow-Crist'')])]]]
   \<and> jsonAt [Index 1, Key ''company'', Key ''name''] (JArr [JObj [(''id'', JNum (1::nat)), (''company'', JObj [(''name'', JStr ''Romaguera-Crona'')])],
                              JObj [(''id'', JNum 2), (''company'', JObj [(''name'', JStr ''Deckow-Crist'')])]]) = Some (JStr ''Deckow-Crist'')
   \<and> map (valueAt [Index 1, Key ''company'', Key ''name''])
         (map Body (recordsOf (parseLogs noCaseMapping
           (\<lambda>body. Inr (JArr [JObj [(''id'', JNum (1::nat)), (''company'', JObj [(''name'', JStr ''Romaguera-Crona'')])],
                              JObj [(''id'', JNum 2), (''company'', JObj [(''name'', JStr ''Deckow-Crist'')])]]))
           (\<lambda>v. []) (\<lambda>i. 0)
           \<lparr>StatusCode = 200, Status = ''200 OK'', ContentType = ''application/json'', ReadAll = Inr []\<rparr>
           [] \<lparr>Endpoint = ''http://example.com'', Method = ''GET'', Body = [], Headers = [],
               ServiceName = ''logs-receiver'', LogLevel = ''info'',
               Labels = [(''companies'', ''company.name'')]\<rparr>)))
      = [Some (VStr ''Deckow-Crist'')]
   \<and> distinctKeys (JObj [(''id'', JNum (10::nat)), (''name'', JStr ''example''), (''active'', JBool True),
                              (''nested'', JObj [(''inner'', JNull)])])
   \<and> map Body (recordsOf (parseLogs noCaseMapping
           (\<lambda>body. Inr (JObj [(''id'', JNum (10::nat)), (''name'', JStr ''example''), (''active'', JBool True),
                              (''nested'', JObj [(''inner'', JNull)])]))
           (\<lambda>v. []) (\<lambda>i. 0)
           \<lparr>StatusCode = 200, Status = ''200 OK'', ContentType = ''application/json'', ReadAll = Inr []\<rparr>
           [] \<lparr>Endpoint = ''http://example.com'', Method = ''GET'', Body = [], Headers = [],
               ServiceName = ''logs-receiver'', LogLevel = ''info'',
               Labels = [(''companies'', ''company.name'')]\<rparr>))
      = [VMap [(''id'', VDouble 10), (''name'', VStr ''example''), (''active'', VBool True),
               (''nested'', VMap [(''inner'', VStr ''null'')])]]
   \<and> jsonAt [Key ''active''] (JObj [(''id'', JNum (10::nat)), (''name'', JStr ''example''), (''active'', JBool True),
                              (''nested'', JObj [(''inner'', JNull)])]) = Some (JBool True)
   \<and> map (valueAt [Key ''active''])
         (map Body (recordsOf (parseLogs noCaseMapping
           (\<lambda>body. Inr (JObj [(''id'', JNum (10::nat)), (''name'', JStr ''example''), (''active'', JBool True),
                              (''nested'', JObj [(''inner'', JNull)])]))
           (\<lambda>v. []) (\<lambda>i. 0)
           \<lparr>StatusCode = 200, Status = ''200 OK'', ContentType = ''application/json'', ReadAll = Inr []\<rparr>
           [] \<lparr>Endpoint = ''http://example.com'', Method = ''GET'', Body = [], Headers = [],
               ServiceName = ''logs-receiver'', LogLevel = ''info'',
               Labels = [(''companies'', ''company.name'')]\<rparr>)))
      = [Some (VBool True)]
   \<and> map Body (recordsOf (parseLogs noCaseMapping
           (\<lambda>body. Inr (JStr ''ok'' :: nat json))
           (\<lambda>v. []) (\<lambda>i. 0)
           \<lparr>StatusCode = 200, Status = ''200 OK'', ContentType = ''application/json'', ReadAll = Inr []\<rparr>
           [] \<lparr>Endpoint = ''http://example.com'', Method = ''GET'', Body = [], Headers = [],
               ServiceName = ''logs-receiver'', LogLevel = ''info'',
               Labels = [(''companies'', ''company.name'')]\<rparr>)) = [VStr ''ok'']"
proof -
  let ?users = "JArr [JObj [(''id'', JNum (1::nat)), (''company'', JObj [(''name'', JStr ''Romaguera-Crona'')])],
                              JObj [(''id'', JNum 2), (''company'', JObj [(''name'', JStr ''Deckow-Crist'')])]]"
  let ?obj = "JObj [(''id'', JNum (10::nat)), (''name'', JStr ''example''), (''active'', JBool True),
                              (''nested'', JObj [(''inner'', JNull)])]"
  let ?resp = "\<lparr>StatusCode = 200, Status = ''200 OK'', ContentType = ''application/json'', ReadAll = Inr []\<rparr>"
  let ?target = "\<lparr>Endpoint = ''http://example.com'', Method = ''GET'', Body = [], Headers = [],
               ServiceName = ''logs-receiver'', LogLevel = ''info'',
               Labels = [(''companies'', ''company.name'')]\<rparr>"
  have c: "Contains (ToLower noCaseMapping (ContentType ?resp)) ''application/json''"
    by (simp add: Contains_application_json)
  have uu: "(\<lambda>body :: string. (Inr ?users :: string + nat json)) [] = Inr ?users" by simp
  have uo: "(\<lambda>body :: string. (Inr ?obj :: string + nat json)) [] = Inr ?obj" by simp
  have us: "(\<lambda>body :: string. (Inr (JStr ''ok'') :: string + nat json)) [] = Inr (JStr ''ok'')"
    by simp
  have du: "distinctKeys ?users" by simp
  have do: "distinctKeys ?obj" by simp
  have au: "jsonAt [Index 1, Key ''company'', Key ''name''] ?users = Some (JStr ''Deckow-Crist'')"
    by simp
  have ao: "jsonAt [Key ''active''] ?obj = Some (JBool True)" by simp
  have tu: "structuralTree ?users
      = VSlice [VMap [(''id'', VDouble 1), (''company'', VMap [(''name'', VStr ''Romaguera-Crona'')])],
                VMap [(''id'', VDouble 2), (''company'', VMap [(''name'', VStr ''Deckow-Crist'')])]]"
    by simp
  have to: "structuralTree ?obj
      = VMap [(''id'', VDouble 10), (''name'', VStr ''example''), (''active'', VBool True),
              (''nested'', VMap [(''inner'', VStr ''null'')])]"
    by simp
  note t1 = parseLogs_json_single_record
      [where unmarshal = "\<lambda>body. Inr ?users" and body = "[]" and data = ?users
         and u = noCaseMapping and resp = ?resp and sprintv = "\<lambda>v. []" and clock = "\<lambda>i. 0"
         and target = ?target and p = "[Index 1, Key ''company'', Key ''name'']"
         and v = "JStr ''Deckow-Crist''" and s = "''Deckow-Crist''", OF uu c]
  note t2 = parseLogs_json_single_record
      [where unmarshal = "\<lambda>body. Inr ?obj" and body = "[]" and data = ?obj
         and u = noCaseMapping and resp = ?resp and sprintv = "\<lambda>v. []" and clock = "\<lambda>i. 0"
         and target = ?target and p = "[Key ''active'']"
         and v = "JBool True" and b = True, OF uo c]
  note t3 = parseLogs_json_single_record
      [where unmarshal = "\<lambda>body. Inr (JStr ''ok'')" and body = "[]" and data = "JStr ''ok''"
         and u = noCaseMapping and resp = ?resp and sprintv = "\<lambda>v. []" and clock = "\<lambda>i. 0"
         and target = ?target and s = "''ok''", OF us c]
  from t1 have one: "\<exists>ld. parseLogs noCaseMapping
           (\<lambda>body. Inr (JArr [JObj [(''id'', JNum (1::nat)), (''company'', JObj [(''name'', JStr ''Romaguera-Crona'')])],
                              JObj [(''id'', JNum 2), (''company'', JObj [(''name'', JStr ''Deckow-Crist'')])]]))
           (\<lambda>v. []) (\<lambda>i. 0)
           \<lparr>StatusCode = 200, Status = ''200 OK'', ContentType = ''application/json'', ReadAll = Inr []\<rparr>
           [] \<lparr>Endpoint = ''http://example.com'', Method = ''GET'', Body = [], Headers = [],
               ServiceName = ''logs-receiver'', LogLevel = ''info'',
               Labels = [(''companies'', ''company.name'')]\<rparr> = Inr ld
         \<and> LogRecordCount ld = 1"
    by blast
  from t1 du have bu: "map Body (recordsOf (parseLogs noCaseMapping
           (\<lambda>body. Inr (JArr [JObj [(''id'', JNum (1::nat)), (''company'', JObj [(''name'', JStr ''Romaguera-Crona'')])],
                              JObj [(''id'', JNum 2), (''company'', JObj [(''name'', JStr ''Deckow-Crist'')])]]))
           (\<lambda>v. []) (\<lambda>i. 0)
           \<lparr>StatusCode = 200, Status = ''200 OK'', ContentType = ''application/json'', ReadAll = Inr []\<rparr>
           [] \<lparr>Endpoint = ''http://example.com'', Method = ''GET'', Body = [], Headers = [],
               ServiceName = ''logs-receiver'', LogLevel = ''info'',
               Labels = [(''companies'', ''company.name'')]\<rparr>))
      = [structuralTree ?users]"
    by blast
  from t1 du au have pu: "map (valueAt [Index 1, Key ''company'', Key ''name''])
         (map Body (recordsOf (parseLogs noCaseMapping
           (\<lambda>body. Inr (JArr [JObj [(''id'', JNum (1::nat)), (''company'', JObj [(''name'', JStr ''Romaguera-Crona'')])],
                              JObj [(''id'', JNum 2), (''company'', JObj [(''name'', JStr ''Deckow-Crist'')])]]))
           (\<lambda>v. []) (\<lambda>i. 0)
           \<lparr>StatusCode = 200, Status = ''200 OK'', ContentType = ''application/json'', ReadAll = Inr []\<rparr>
           [] \<lparr>Endpoint = ''http://example.com'', Method = ''GET'', Body = [], Headers = [],
               ServiceName = ''logs-receiver'', LogLevel = ''info'',
               Labels = [(''companies'', ''company.name'')]\<rparr>)))
      = [Some (structuralTree (JStr ''Deckow-Crist''))]"
    by blast
  from t2 do have bo: "map Body (recordsOf (parseLogs noCaseMapping
           (\<lambda>body. Inr (JObj [(''id'', JNum (10::nat)), (''name'', JStr ''example''), (''active'', JBool True),
                              (''nested'', JObj [(''inner'', JNull)])]))
           (\<lambda>v. []) (\<lambda>i. 0)
           \<lparr>StatusCode = 200, Status = ''200 OK'', ContentType = ''application/json'', ReadAll = Inr []\<rparr>
           [] \<lparr>Endpoint = ''http://example.com'', Method = ''GET'', Body = [], Headers = [],
               ServiceName = ''logs-receiver'', LogLevel = ''info'',
               Labels = [(''companies'', ''company.name'')]\<rparr>))
      = [structuralTree ?obj]"
    by blast
  from t2 do ao have po: "map (valueAt [Key ''active''])
         (map Body (recordsOf (parseLogs noCaseMapping
           (\<lambda>body. Inr (JObj [(''id'', JNum (10::nat)), (''name'', JStr ''example''), (''active'', JBool True),
                              (''nested'', JObj [(''inner'', JNull)])]))
           (\<lambda>v. []) (\<lambda>i. 0)
           \<lparr>StatusCode = 200, Status = ''200 OK'', ContentType = ''application/json'', ReadAll = Inr []\<rparr>
           [] \<lparr>Endpoint = ''http://example.com'', Method = ''GET'', Body = [], Headers = [],
               ServiceName = ''logs-receiver'', LogLevel = ''info'',
               Labels = [(''companies'', ''company.name'')]\<rparr>)))
      = [Some (structuralTree (JBool True))]"
    by blast
  from t3 have bs: "map Body (recordsOf (parseLogs noCaseMapping
           (\<lambda>body. Inr (JStr ''ok'' :: nat json))
           (\<lambda>v. []) (\<lambda>i. 0)
           \<lparr>StatusCode = 200, Status = ''200 OK'', ContentType = ''application/json'', ReadAll = Inr []\<rparr>
           [] \<lparr>Endpoint = ''http://example.com'', Method = ''GET'', Body = [], Headers = [],
               ServiceName = ''logs-receiver'', LogLevel = ''info'',
               Labels = [(''companies'', ''company.name'')]\<rparr>)) = [VStr ''ok'']"
    by blast
  show ?thesis
    using Contains_application_json [of noCaseMapping] one du do au ao
      bu [unfolded tu] bo [unfolded to] pu po bs
    by simp
qed

section \<open>Label attributes\<close>

lemma addLogRecord_attributes:
  "distinct (map fst (Labels target)) \<Longrightarrow>
   map Attributes (LogRecords (addLogRecord u sprintv now scope data target))
   = map Attributes (LogRecords scope) @
     [map (\<lambda>kv. (fst kv,
                   VStr (if extractValueByPath (snd kv) data \<noteq> JNull
                         then sprintv (extractValueByPath (snd kv) data) else ''NOT FOUND'')))
        (Labels target)]"
proof -
  assume d: "distinct (map fst (Labels target))"
  have loop: "foldl (\<lambda>attrs kv.
                 let key = fst kv; labelVal = snd kv; val = extractValueByPath labelVal data
                 in if val \<noteq> JNull then PutStr attrs key (sprintv val)
                    else PutStr attrs key ''NOT FOUND'')
            [] (Labels target)
        = foldl (\<lambda>m kv. Put m (fst kv)
                   ((\<lambda>labelVal. VStr (if extractValueByPath labelVal data \<noteq> JNull
                         then sprintv (extractValueByPath labelVal data) else ''NOT FOUND''))
                    (snd kv)))
            [] (Labels target)"
    by (rule arg_cong [where f = "\<lambda>f. foldl f [] (Labels target)"])
       (auto simp: fun_eq_iff Let_def PutStr_def)
  have "fst ` set ([] :: (string \<times> 'a pvalue) list) \<inter> fst ` set (Labels target) = {}"
    by simp
  note conv = foldl_Put_distinct [OF d this,
      of "\<lambda>labelVal. VStr (if extractValueByPath labelVal data \<noteq> JNull
                         then sprintv (extractValueByPath labelVal data) else ''NOT FOUND'')"]
  show ?thesis
    unfolding addLogRecord_def Let_def
    using conv by (simp add: loop [unfolded Let_def] del: setBodyValue.simps)
qed

lemma addLogRecord_not_found:
  assumes d: "distinct (map fst (Labels target))"
    and l: "(labelName, path) \<in> set (Labels target)"
    and n: "extractValueByPath path data = JNull"
  shows "attributeOf labelName (addLogRecord u sprintv now \<lparr>LogRecords = []\<rparr> data target)
         = [Some (VStr ''NOT FOUND'')]"
proof -
  have m: "map_of (Labels target) labelName = Some path"
    using d l by simp
  have "attributeOf labelName (addLogRecord u sprintv now \<lparr>LogRecords = []\<rparr> data target)
      = map (\<lambda>a. Get a labelName)
          (map Attributes (LogRecords (addLogRecord u sprintv now \<lparr>LogRecords = []\<rparr> data target)))"
    by (simp add: attributeOf_def)
  also have "\<dots> = [Some (VStr ''NOT FOUND'')]"
    using map_of_converted [of "\<lambda>labelVal. VStr (if extractValueByPath labelVal data \<noteq> JNull
                         then sprintv (extractValueByPath labelVal data) else ''NOT FOUND'')"
                         "Labels target" labelName]
    by (simp add: addLogRecord_attributes [OF d] Get_def m n)
  finally show ?thesis .
qed

lemma SplitN2_head_only:
  "CHR ''.'' \<notin> set s \<Longrightarrow> SplitN2 s (CHR ''.'') = [s]"
  by (simp add: SplitN2_def)

lemma SplitN2_head_tail:
  "CHR ''.'' \<notin> set s \<Longrightarrow> SplitN2 (s @ CHR ''.'' # rest) (CHR ''.'') = [s, rest]"
proof -
  assume "CHR ''.'' \<notin> set s"
  then have ne: "\<And>x. x \<in> set s \<Longrightarrow> x \<noteq> CHR ''.''" by auto
  have "takeWhile (\<lambda>c. c \<noteq> CHR ''.'') (s @ CHR ''.'' # rest) = s"
    using ne by (simp add: takeWhile_append2)
  moreover have "dropWhile (\<lambda>c. c \<noteq> CHR ''.'') (s @ CHR ''.'' # rest) = CHR ''.'' # rest"
    using ne by (simp add: dropWhile_append2)
  ultimately show ?thesis by (simp add: SplitN2_def)
qed

lemma dotPath_nonempty:
  "segs \<noteq> [] \<Longrightarrow> last segs \<noteq> [] \<Longrightarrow> dotPath segs \<noteq> []"
  by (induction segs rule: dotPath.induct) simp_all

lemma extractValueByPath_along_keys:
  "segs \<noteq> [] \<Longrightarrow> \<forall>s\<in>set segs. CHR ''.'' \<notin> set s \<Longrightarrow> last segs \<noteq> [] \<Longrightarrow>
   jsonAt (map Key segs) data = Some v \<Longrightarrow>
   extractValueByPath (dotPath segs) data = v"
proof (induction segs arbitrary: data rule: dotPath.induct)
  case 1
  then show ?case by simp
next
  case (2 s)
  then obtain kvs where data: "data = JObj kvs" and c: "map_of kvs s = Some v"
    by (cases data) (auto split: option.splits)
  from 2 have "s \<noteq> []" and "CHR ''.'' \<notin> set s" by simp_all
  then show ?case
    by (simp add: data extractValueByPath_object SplitN2_head_only c)
next
  case (3 s s' ss)
  from "3.prems"(4) obtain kvs child where data: "data = JObj kvs"
    and c: "map_of kvs s = Some child"
    and v: "jsonAt (map Key (s' # ss)) child = Some v"
    by (cases data) (auto split: option.splits)
  have nodot: "CHR ''.'' \<notin> set s" using "3.prems"(2) by simp
  have tl: "dotPath (s' # ss) \<noteq> []"
    using "3.prems"(3) by (intro dotPath_nonempty) simp_all
  have ih: "extractValueByPath (dotPath (s' # ss)) child = v"
    using "3.prems" v by (intro "3.IH") simp_all
  have "dotPath (s # s' # ss) = s @ CHR ''.'' # dotPath (s' # ss)" by simp
  then show ?case
    using tl ih by (simp add: data extractValueByPath_object SplitN2_head_tail [OF nodot] c
        del: dotPath.simps)
qed

lemma parseJSONLogs_records:
  "unmarshal body = Inr data \<Longrightarrow>
   \<exists>ld. parseJSONLogs u unmarshal sprintv clock body target [] = Inr ld
     \<and> allRecords ld = LogRecords (addLogRecord u sprintv (clock 0) \<lparr>LogRecords = []\<rparr> data target)"
  using parseJSONLogs_ok [of unmarshal body data u sprintv clock target]
  by (auto simp: allRecords_def)

text \<open>
  C4. When the extraction of a label's path from the decoded payload returns null, the
  record carries the string \<^verbatim>\<open>NOT FOUND\<close> under the label's name, and the parse still
  succeeds: a missing path is no error. The label names of a target are distinct, as the
  keys of a Go map are.
\<close>

theorem missing_path_attribute_NOT_FOUND:
  "unmarshal body = Inr data \<Longrightarrow>
   distinct (map fst (Labels target)) \<Longrightarrow>
   (labelName, path) \<in> set (Labels target) \<Longrightarrow>
   extractValueByPath path data = JNull \<Longrightarrow>
   attributeOf labelName (addLogRecord u sprintv now \<lparr>LogRecords = []\<rparr> data target)
     = [Some (VStr ''NOT FOUND'')]
   \<and> (\<exists>ld. parseJSONLogs u unmarshal sprintv clock body target [] = Inr ld
         \<and> attributeOf labelName \<lparr>LogRecords = allRecords ld\<rparr> = [Some (VStr ''NOT FOUND'')])"
proof -
  assume un: "unmarshal body = Inr data"
    and d: "distinct (map fst (Labels target))"
    and l: "(labelName, path) \<in> set (Labels target)"
    and n: "extractValueByPath path data = JNull"
  note nf = addLogRecord_not_found [OF d l n]
  obtain ld where ld: "parseJSONLogs u unmarshal sprintv clock body target [] = Inr ld"
    and recs: "allRecords ld
      = LogRecords (addLogRecord u sprintv (clock 0) \<lparr>LogRecords = []\<rparr> data target)"
    using parseJSONLogs_records [of unmarshal body data u sprintv clock target] un by blast
  have "attributeOf labelName \<lparr>LogRecords = allRecords ld\<rparr> = [Some (VStr ''NOT FOUND'')]"
    using nf [of u sprintv "clock 0"] by (simp add: attributeOf_def recs)
  with ld nf show ?thesis by blast
qed

lemma extract_does_not_exist:
  "extractValueByPath ''does.not.exist''
     (JObj [(''id'', JNum (10::nat)), (''name'', JStr ''example''),
            (''nested'', JObj [(''inner'', JNum 42)])]) = JNull"
  by (simp add: extractValueByPath_object SplitN2_def)

theorem missing_path_attribute_witness:
  "distinct (map fst [(''id_field'', ''id''), (''missing_field'', ''does.not.exist'')])
   \<and> extractValueByPath ''does.not.exist''
        (JObj [(''id'', JNum (10::nat)), (''name'', JStr ''example''),
               (''nested'', JObj [(''inner'', JNum 42)])]) = JNull
   \<and> attributeOf ''missing_field''
        (addLogRecord noCaseMapping (\<lambda>v. ''10'') 0 \<lparr>LogRecords = []\<rparr>
           (JObj [(''id'', JNum (10::nat)), (''name'', JStr ''example''),
                  (''nested'', JObj [(''inner'', JNum 42)])])
           \<lparr>Endpoint = ''http://example.com'', Method = ''GET'', Body = [], Headers = [],
            ServiceName = ''logs-receiver'', LogLevel = ''info'',
            Labels = [(''id_field'', ''id''), (''missing_field'', ''does.not.exist'')]\<rparr>)
      = [Some (VStr ''NOT FOUND'')]"
proof -
  let ?data = "JObj [(''id'', JNum (10::nat)), (''name'', JStr ''example''),
                     (''nested'', JObj [(''inner'', JNum 42)])]"
  let ?target = "\<lparr>Endpoint = ''http://example.com'', Method = ''GET'', Body = [], Headers = [],
            ServiceName = ''logs-receiver'', LogLevel = ''info'',
            Labels = [(''id_field'', ''id''), (''missing_field'', ''does.not.exist'')]\<rparr>"
  have un: "(\<lambda>body :: string. (Inr ?data :: string + nat json)) [] = Inr ?data" by simp
  have d: "distinct (map fst (Labels ?target))" by simp
  have l: "(''missing_field'', ''does.not.exist'') \<in> set (Labels ?target)" by simp
  show ?thesis
    using missing_path_attribute_NOT_FOUND
      [where u = noCaseMapping and unmarshal = "\<lambda>body. Inr ?data" and body = "[]" and sprintv = "\<lambda>v. ''10''"
         and now = 0 and clock = "\<lambda>i. 0", OF un d l extract_does_not_exist]
    by (simp add: extract_does_not_exist)
qed

text \<open>
  C10. A label whose dot-path leads through mappings to a key that is present with the
  value null extracts null, so its attribute is \<^verbatim>\<open>NOT FOUND\<close>, the same attribute as for
  any payload in which the path finds nothing; in the body of the same record the null
  stands as the string \<^verbatim>\<open>null\<close> at that position. The segments are free of dots and
  the last one is not empty.
\<close>

theorem null_field_attribute_NOT_FOUND:
  "segs \<noteq> [] \<Longrightarrow> \<forall>s\<in>set segs. CHR ''.'' \<notin> set s \<Longrightarrow> last segs \<noteq> [] \<Longrightarrow>
   jsonAt (map Key segs) data = Some JNull \<Longrightarrow>
   distinctKeys data \<Longrightarrow>
   distinct (map fst (Labels target)) \<Longrightarrow>
   (labelName, dotPath segs) \<in> set (Labels target) \<Longrightarrow>
   extractValueByPath (dotPath segs) data = JNull
   \<and> attributeOf labelName (addLogRecord u sprintv now \<lparr>LogRecords = []\<rparr> data target)
       = [Some (VStr ''NOT FOUND'')]
   \<and> (extractValueByPath (dotPath segs) absent = JNull \<longrightarrow>
        attributeOf labelName (addLogRecord u sprintv now \<lparr>LogRecords = []\<rparr> absent target)
        = attributeOf labelName (addLogRecord u sprintv now \<lparr>LogRecords = []\<rparr> data target))
   \<and> map (\<lambda>r. valueAt (map Key segs) (Body r))
         (LogRecords (addLogRecord u sprintv now \<lparr>LogRecords = []\<rparr> data target))
       = [Some (VStr ''null'')]"
proof -
  assume segs: "segs \<noteq> []" "\<forall>s\<in>set segs. CHR ''.'' \<notin> set s" "last segs \<noteq> []"
    and at: "jsonAt (map Key segs) data = Some JNull"
    and dk: "distinctKeys data"
    and d: "distinct (map fst (Labels target))"
    and l: "(labelName, dotPath segs) \<in> set (Labels target)"
  have n: "extractValueByPath (dotPath segs) data = JNull"
    using segs at by (rule extractValueByPath_along_keys)
  note nf = addLogRecord_not_found [OF d l]
  have body: "valueAt (map Key segs) (setBodyValue data) = Some (VStr ''null'')"
    using valueAt_setBodyValue [OF dk at] by simp
  have bodies: "map (\<lambda>r. valueAt (map Key segs) (Body r))
         (LogRecords (addLogRecord u sprintv now \<lparr>LogRecords = []\<rparr> data target))
       = map (valueAt (map Key segs))
           (map Body (LogRecords (addLogRecord u sprintv now \<lparr>LogRecords = []\<rparr> data target)))"
    by (simp add: comp_def)
  have b: "map (\<lambda>r. valueAt (map Key segs) (Body r))
         (LogRecords (addLogRecord u sprintv now \<lparr>LogRecords = []\<rparr> data target))
       = [Some (VStr ''null'')]"
    unfolding bodies addLogRecord_bodies using body by simp
  have same: "extractValueByPath (dotPath segs) absent = JNull \<longrightarrow>
        attributeOf labelName (addLogRecord u sprintv now \<lparr>LogRecords = []\<rparr> absent target)
        = attributeOf labelName (addLogRecord u sprintv now \<lparr>LogRecords = []\<rparr> data target)"
    using nf [of absent u sprintv now] nf [OF n, of u sprintv now] by simp
  from n nf [OF n, of u sprintv now] same b show ?thesis by blast
qed

theorem null_field_attribute_witness:
  "[''user'', ''email''] \<noteq> []
   \<and> CHR ''.'' \<notin> set ''user'' \<and> CHR ''.'' \<notin> set ''email''
   \<and> jsonAt (map Key [''user'', ''email''])
        (JObj [(''user'', JObj [(''email'', JNull), (''id'', JNum (7::nat))])]) = Some JNull
   \<and> dotPath [''user'', ''email''] = ''user.email''
   \<and> extractValueByPath ''user.email''
        (JObj [(''user'', JObj [(''email'', JNull), (''id'', JNum (7::nat))])]) = JNull
   \<and> attributeOf ''mail''
        (addLogRecord noCaseMapping (\<lambda>v. ''7'') 0 \<lparr>LogRecords = []\<rparr>
           (JObj [(''user'', JObj [(''email'', JNull), (''id'', JNum (7::nat))])])
           \<lparr>Endpoint = ''http://example.com'', Method = ''GET'', Body = [], Headers = [],
            ServiceName = ''logs-receiver'', LogLevel = ''info'',
            Labels = [(''mail'', ''user.email'')]\<rparr>)
      = [Some (VStr ''NOT FOUND'')]
   \<and> attributeOf ''mail''
        (addLogRecord noCaseMapping (\<lambda>v. ''7'') 0 \<lparr>LogRecords = []\<rparr>
           (JObj [(''user'', JObj [(''id'', JNum (7::nat))])])
           \<lparr>Endpoint = ''http://example.com'', Method = ''GET'', Body = [], Headers = [],
            ServiceName = ''logs-receiver'', LogLevel = ''info'',
            Labels = [(''mail'', ''user.email'')]\<rparr>)
      = [Some (VStr ''NOT FOUND'')]
   \<and> map (\<lambda>r. valueAt (map Key [''user'', ''email'']) (Body r))
        (LogRecords (addLogRecord noCaseMapping (\<lambda>v. ''7'') 0 \<lparr>LogRecords = []\<rparr>
           (JObj [(''user'', JObj [(''email'', JNull), (''id'', JNum (7::nat))])])
           \<lparr>Endpoint = ''http://example.com'', Method = ''GET'', Body = [], Headers = [],
            ServiceName = ''logs-receiver'', LogLevel = ''info'',
            Labels = [(''mail'', ''user.email'')]\<rparr>))
      = [Some (VStr ''null'')]"
proof -
  let ?data = "JObj [(''user'', JObj [(''email'', JNull), (''id'', JNum (7::nat))])]"
  let ?absent = "JObj [(''user'', JObj [(''id'', JNum (7::nat))])]"
  let ?target = "\<lparr>Endpoint = ''http://example.com'', Method = ''GET'', Body = [], Headers = [],
            ServiceName = ''logs-receiver'', LogLevel = ''info'',
            Labels = [(''mail'', ''user.email'')]\<rparr>"
  have s1: "[''user'', ''email''] \<noteq> []" by simp
  have s2: "\<forall>s\<in>set [''user'', ''email'']. CHR ''.'' \<notin> set s" by simp
  have s3: "last [''user'', ''email''] \<noteq> []" by simp
  have at: "jsonAt (map Key [''user'', ''email'']) ?data = Some JNull" by simp
  have dk: "distinctKeys ?data" by simp
  have d: "distinct (map fst (Labels ?target))" by simp
  have l: "(''mail'', dotPath [''user'', ''email'']) \<in> set (Labels ?target)" by simp
  have a: "extractValueByPath (dotPath [''user'', ''email'']) ?absent = JNull"
    by (simp add: extractValueByPath_object SplitN2_def)
  show ?thesis
    using null_field_attribute_NOT_FOUND
      [where u = noCaseMapping and sprintv = "\<lambda>v. ''7''" and now = 0 and absent = ?absent, OF s1 s2 s3 at dk d l] a
    by simp
qed

section \<open>Polling\<close>

text \<open>
  C9. When the response of a poll has a status code of 400 or more, \<^verbatim>\<open>pollTarget\<close>
  returns the HTTP error with the status code and the status text and hands nothing to
  the sink. When the parse gives a batch without records, \<^verbatim>\<open>pollTarget\<close> returns no
  error and hands nothing to the sink either.
\<close>

theorem pollTarget_http_error_and_empty_batch:
  "createRequest newRequestErr target = Inr req \<Longrightarrow>
   doRequest req = Inr resp \<Longrightarrow>
   (StatusCode resp \<ge> 400 \<longrightarrow>
      pollTarget u newRequestErr doRequest unmarshal sprintv clock consume target
        = (Some (HTTPError (StatusCode resp) (Status resp)), []))
   \<and> (StatusCode resp < 400 \<longrightarrow> ReadAll resp = Inr body \<longrightarrow>
        parseLogs u unmarshal sprintv clock resp body target = Inr ld \<longrightarrow>
        LogRecordCount ld = 0 \<longrightarrow>
        pollTarget u newRequestErr doRequest unmarshal sprintv clock consume target = (None, []))"
  by (simp add: pollTarget_def)

lemma createRequest_plain_get:
  "createRequest (\<lambda>method url. None)
     \<lparr>Endpoint = ''http://example.com/logs'', Method = ''GET'', Body = [], Headers = [],
      ServiceName = ''logs-receiver'', LogLevel = ''info'', Labels = []\<rparr>
   = Inr \<lparr>reqMethod = ''GET'', reqURL = ''http://example.com/logs'', reqBody = None,
          reqHeader = []\<rparr>"
  by (simp add: createRequest_def NewRequest_def)

lemma parseLogs_empty_text:
  "parseLogs u unmarshal sprintv clock
     \<lparr>StatusCode = 200, Status = ''200 OK'', ContentType = ''text/plain'', ReadAll = Inr []\<rparr>
     [] \<lparr>Endpoint = ''http://example.com/logs'', Method = ''GET'', Body = [], Headers = [],
      ServiceName = ''logs-receiver'', LogLevel = ''info'', Labels = []\<rparr>
   = Inr [\<lparr>Resource = [(''service.name'', VStr ''logs-receiver''),
                        (''endpoint'', VStr ''http://example.com/logs'')],
           ScopeLogs = [\<lparr>LogRecords = []\<rparr>]\<rparr>]"
proof -
  have "TrimSpace [] = []" by code_simp
  then show ?thesis
    by (simp add: parseLogs_text_plain parseTextLogs_def PutStr_def)
qed

theorem pollTarget_http_error_witness:
  "(500::int) \<ge> 400
   \<and> pollTarget noCaseMapping (\<lambda>method url. None)
        (\<lambda>req. Inr \<lparr>StatusCode = 500, Status = ''500 Internal Server Error'',
                      ContentType = [], ReadAll = Inr []\<rparr>)
        (\<lambda>body. Inl ''unexpected end of JSON input'' :: string + nat json) (\<lambda>v. []) (\<lambda>i. 0) (\<lambda>ld. None)
        \<lparr>Endpoint = ''http://example.com/logs'', Method = ''GET'', Body = [], Headers = [],
         ServiceName = ''logs-receiver'', LogLevel = ''info'', Labels = []\<rparr>
      = (Some (HTTPError 500 ''500 Internal Server Error''), [])
   \<and> (200::int) < 400
   \<and> LogRecordCount [\<lparr>Resource = [(''service.name'', VStr ''logs-receiver''),
                        (''endpoint'', VStr ''http://example.com/logs'')],
           ScopeLogs = [\<lparr>LogRecords = ([] :: nat logRecord list)\<rparr>]\<rparr>] = 0
   \<and> pollTarget noCaseMapping (\<lambda>method url. None)
        (\<lambda>req. Inr \<lparr>StatusCode = 200, Status = ''200 OK'',
                      ContentType = ''text/plain'', ReadAll = Inr []\<rparr>)
        (\<lambda>body. Inl ''unexpected end of JSON input'' :: string + nat json) (\<lambda>v. []) (\<lambda>i. 0) (\<lambda>ld. None)
        \<lparr>Endpoint = ''http://example.com/logs'', Method = ''GET'', Body = [], Headers = [],
         ServiceName = ''logs-receiver'', LogLevel = ''info'', Labels = []\<rparr>
      = (None, [])"
proof -
  let ?target = "\<lparr>Endpoint = ''http://example.com/logs'', Method = ''GET'', Body = [], Headers = [],
         ServiceName = ''logs-receiver'', LogLevel = ''info'', Labels = []\<rparr>"
  let ?r500 = "\<lparr>StatusCode = 500, Status = ''500 Internal Server Error'',
                      ContentType = [], ReadAll = Inr []\<rparr>"
  let ?r200 = "\<lparr>StatusCode = 200, Status = ''200 OK'',
                      ContentType = ''text/plain'', ReadAll = Inr []\<rparr>"
  have d5: "(\<lambda>req :: request. (Inr ?r500 :: string + response))
        \<lparr>reqMethod = ''GET'', reqURL = ''http://example.com/logs'', reqBody = None, reqHeader = []\<rparr>
      = Inr ?r500" by simp
  have d2: "(\<lambda>req :: request. (Inr ?r200 :: string + response))
        \<lparr>reqMethod = ''GET'', reqURL = ''http://example.com/logs'', reqBody = None, reqHeader = []\<rparr>
      = Inr ?r200" by simp
  show ?thesis
    using pollTarget_http_error_and_empty_batch
      [where u = noCaseMapping and doRequest = "\<lambda>req. Inr ?r500" and unmarshal = "\<lambda>body. Inl ''unexpected end of JSON input'' :: string + nat json"
         and sprintv = "\<lambda>v. []" and clock = "\<lambda>i. 0" and consume = "\<lambda>ld. None"
         and body = "[]" and ld = "[]", OF createRequest_plain_get d5]
      pollTarget_http_error_and_empty_batch
      [where u = noCaseMapping and doRequest = "\<lambda>req. Inr ?r200" and unmarshal = "\<lambda>body. Inl ''unexpected end of JSON input'' :: string + nat json"
         and sprintv = "\<lambda>v. []" and clock = "\<lambda>i. 0" and consume = "\<lambda>ld. None"
         and body = "[]"
         and ld = "[\<lparr>Resource = [(''service.name'', VStr ''logs-receiver''),
                        (''endpoint'', VStr ''http://example.com/logs'')],
           ScopeLogs = [\<lparr>LogRecords = []\<rparr>]\<rparr>]", OF createRequest_plain_get d2]
    by (simp add: parseLogs_empty_text LogRecordCount_def)
qed

section \<open>Request headers\<close>

lemma canonical_Content_Type:
  "CanonicalMIMEHeaderKey ''Content-Type'' = ''Content-Type''"
  by code_simp

lemma map_of_Put:
  "map_of (Put m k v) k' = (if k' = k then Some v else map_of m k')"
  by (induction m) auto

lemma HeaderGet_HeaderSet:
  "HeaderGet (HeaderSet h key value) key' =
     (if CanonicalMIMEHeaderKey key' = CanonicalMIMEHeaderKey key then value else HeaderGet h key')"
  by (simp add: HeaderGet_def HeaderSet_def map_of_Put)

lemma createRequest_result:
  "createRequest newRequestErr target = Inr req \<Longrightarrow>
   req = \<lparr>reqMethod = (if Method target = [] then ''GET'' else Method target),
          reqURL = Endpoint target,
          reqBody = (if targetConfig.Body target \<noteq> [] then Some (targetConfig.Body target) else None),
          reqHeader =
            (if targetConfig.Body target \<noteq> [] \<and> HeaderGet (copiedHeaders target) ''Content-Type'' = []
             then HeaderSet (copiedHeaders target) ''Content-Type''
                    (inferredContentType (targetConfig.Body target))
             else copiedHeaders target)\<rparr>"
  by (auto simp: createRequest_def NewRequest_def Let_def copiedHeaders_def inferredContentType_def
      split: option.splits if_splits)

lemma copied_no_content_type:
  "\<forall>kv\<in>set hs. CanonicalMIMEHeaderKey (fst kv) \<noteq> ''Content-Type'' \<Longrightarrow>
   HeaderGet h ''Content-Type'' = [] \<Longrightarrow>
   HeaderGet (foldl (\<lambda>h kv. HeaderSet h (fst kv) (snd kv)) h hs) ''Content-Type'' = []"
proof (induction hs rule: rev_induct)
  case Nil
  then show ?case by simp
next
  case (snoc kv hs)
  have "CanonicalMIMEHeaderKey (fst kv) \<noteq> ''Content-Type''"
    using snoc.prems(1) by simp
  then have "''Content-Type'' \<noteq> CanonicalMIMEHeaderKey (fst kv)"
    by (rule not_sym)
  moreover have "HeaderGet (foldl (\<lambda>h kv. HeaderSet h (fst kv) (snd kv)) h hs) ''Content-Type'' = []"
    using snoc.prems by (intro snoc.IH) simp_all
  ultimately show ?case
    by (simp add: HeaderGet_HeaderSet canonical_Content_Type)
qed

lemma copied_content_type_nonempty:
  "\<exists>kv\<in>set hs. CanonicalMIMEHeaderKey (fst kv) = ''Content-Type'' \<Longrightarrow>
   \<forall>kv\<in>set hs. CanonicalMIMEHeaderKey (fst kv) = ''Content-Type'' \<longrightarrow> snd kv \<noteq> [] \<Longrightarrow>
   HeaderGet (foldl (\<lambda>h kv. HeaderSet h (fst kv) (snd kv)) h hs) ''Content-Type'' \<noteq> []"
proof (induction hs arbitrary: h rule: rev_induct)
  case Nil
  then show ?case by simp
next
  case (snoc kv hs)
  show ?case
  proof (cases "CanonicalMIMEHeaderKey (fst kv) = ''Content-Type''")
    case True
    then show ?thesis
      using snoc.prems(2) by (simp add: HeaderGet_HeaderSet canonical_Content_Type)
  next
    case False
    then have "\<exists>kv\<in>set hs. CanonicalMIMEHeaderKey (fst kv) = ''Content-Type''"
      using snoc.prems(1) by auto
    moreover have "\<forall>kv\<in>set hs. CanonicalMIMEHeaderKey (fst kv) = ''Content-Type'' \<longrightarrow> snd kv \<noteq> []"
      using snoc.prems(2) by auto
    ultimately have "HeaderGet (foldl (\<lambda>h kv. HeaderSet h (fst kv) (snd kv)) h hs) ''Content-Type'' \<noteq> []"
      by (rule snoc.IH)
    then show ?thesis
      using False by (simp add: HeaderGet_HeaderSet canonical_Content_Type)
  qed
qed

lemma copied_empty_content_type:
  "\<forall>kv\<in>set hs. CanonicalMIMEHeaderKey (fst kv) = ''Content-Type'' \<longrightarrow> snd kv = [] \<Longrightarrow>
   HeaderGet h ''Content-Type'' = [] \<Longrightarrow>
   HeaderGet (foldl (\<lambda>h kv. HeaderSet h (fst kv) (snd kv)) h hs) ''Content-Type'' = []"
proof (induction hs rule: rev_induct)
  case Nil
  then show ?case by simp
next
  case (snoc kv hs)
  have ih: "HeaderGet (foldl (\<lambda>h kv. HeaderSet h (fst kv) (snd kv)) h hs) ''Content-Type'' = []"
    using snoc.prems by (intro snoc.IH) simp_all
  show ?case
  proof (cases "CanonicalMIMEHeaderKey (fst kv) = ''Content-Type''")
    case True
    then have "snd kv = []" using snoc.prems(1) by simp
    then show ?thesis
      using True by (simp add: HeaderGet_HeaderSet canonical_Content_Type)
  next
    case False
    then have "''Content-Type'' \<noteq> CanonicalMIMEHeaderKey (fst kv)"
      by (rule not_sym)
    then show ?thesis
      using ih by (simp add: HeaderGet_HeaderSet canonical_Content_Type)
  qed
qed

lemma createRequest_eq:
  "newRequestErr (Method target) (Endpoint target) = None \<Longrightarrow>
   createRequest newRequestErr target =
     Inr \<lparr>reqMethod = (if Method target = [] then ''GET'' else Method target),
          reqURL = Endpoint target,
          reqBody = (if targetConfig.Body target \<noteq> [] then Some (targetConfig.Body target) else None),
          reqHeader =
            (if targetConfig.Body target \<noteq> [] \<and> HeaderGet (copiedHeaders target) ''Content-Type'' = []
             then HeaderSet (copiedHeaders target) ''Content-Type''
                    (inferredContentType (targetConfig.Body target))
             else copiedHeaders target)\<rparr>"
  by (simp add: createRequest_def NewRequest_def Let_def copiedHeaders_def inferredContentType_def)

lemma canonical_content_type_lower:
  "CanonicalMIMEHeaderKey ''content-type'' = ''Content-Type''"
  by code_simp

lemma TrimSpace_examples:
  "TrimSpace ''{}'' = ''{}''"
  \<open>TrimSpace ''{"k":"v"}'' = ''{"k":"v"}''\<close>
  "TrimSpace ''plain text'' = ''plain text''"
  "TrimSpace ''plain'' = ''plain''"
  "TrimSpace [CHR 0xC2, CHR 0xA0, CHR ''{'', CHR ''}''] = ''{}''"
  by code_simp+

lemmas createRequest_eval =
  createRequest_eq copiedHeaders_def HeaderSet_def HeaderGet_def inferredContentType_def
  HasPrefix_def TrimSpace_examples canonical_Content_Type canonical_content_type_lower

lemma createRequest_json:
  \<open>createRequest (\<lambda>method url. None)
     \<lparr>Endpoint = ''http://example.com'', Method = ''POST'', Body = ''{"k":"v"}'',
      Headers = [], ServiceName = ''logs-receiver'', LogLevel = ''info'', Labels = []\<rparr>
   = Inr \<lparr>reqMethod = ''POST'', reqURL = ''http://example.com'', reqBody = Some ''{"k":"v"}'',
          reqHeader = [(''Content-Type'', [''application/json''])]\<rparr>\<close>
  by (simp add: createRequest_eval)

lemma createRequest_text:
  "createRequest (\<lambda>method url. None)
     \<lparr>Endpoint = ''http://example.com'', Method = ''POST'', Body = ''plain text'',
      Headers = [], ServiceName = ''logs-receiver'', LogLevel = ''info'', Labels = []\<rparr>
   = Inr \<lparr>reqMethod = ''POST'', reqURL = ''http://example.com'', reqBody = Some ''plain text'',
          reqHeader = [(''Content-Type'', [''text/plain''])]\<rparr>"
  by (simp add: createRequest_eval)

lemma createRequest_xml:
  "createRequest (\<lambda>method url. None)
     \<lparr>Endpoint = ''http://example.com'', Method = ''POST'', Body = ''{}'',
      Headers = [(''content-type'', ''application/xml'')], ServiceName = ''logs-receiver'', LogLevel = ''info'', Labels = []\<rparr>
   = Inr \<lparr>reqMethod = ''POST'', reqURL = ''http://example.com'', reqBody = Some ''{}'',
          reqHeader = [(''Content-Type'', [''application/xml''])]\<rparr>"
  by (simp add: createRequest_eval)

lemma createRequest_emptyjson:
  "createRequest (\<lambda>method url. None)
     \<lparr>Endpoint = ''http://example.com'', Method = ''POST'', Body = ''{}'',
      Headers = [(''Content-Type'', [])], ServiceName = ''logs-receiver'', LogLevel = ''info'', Labels = []\<rparr>
   = Inr \<lparr>reqMethod = ''POST'', reqURL = ''http://example.com'', reqBody = Some ''{}'',
          reqHeader = [(''Content-Type'', [''application/json''])]\<rparr>"
  by (simp add: createRequest_eval)

lemma createRequest_emptytext:
  "createRequest (\<lambda>method url. None)
     \<lparr>Endpoint = ''http://example.com'', Method = ''POST'', Body = ''plain'',
      Headers = [(''Content-Type'', [])], ServiceName = ''logs-receiver'', LogLevel = ''info'', Labels = []\<rparr>
   = Inr \<lparr>reqMethod = ''POST'', reqURL = ''http://example.com'', reqBody = Some ''plain'',
          reqHeader = [(''Content-Type'', [''text/plain''])]\<rparr>"
  by (simp add: createRequest_eval)

lemma createRequest_nbsp:
  "createRequest (\<lambda>method url. None)
     \<lparr>Endpoint = ''http://example.com'', Method = ''POST'', Body = [CHR 0xC2, CHR 0xA0, CHR ''{'', CHR ''}''],
      Headers = [], ServiceName = ''logs-receiver'', LogLevel = ''info'', Labels = []\<rparr>
   = Inr \<lparr>reqMethod = ''POST'', reqURL = ''http://example.com'', reqBody = Some [CHR 0xC2, CHR 0xA0, CHR ''{'', CHR ''}''],
          reqHeader = [(''Content-Type'', [''application/json''])]\<rparr>"
  by (simp add: createRequest_eval)

text \<open>
  C7, as stated, fails: a target that sets the header \<^verbatim>\<open>Content-Type\<close> to the empty
  string and has the body \<^verbatim>\<open>{}\<close> gets a request whose \<^verbatim>\<open>Content-Type\<close> is
  \<^verbatim>\<open>application/json\<close>, not the value the target set.
\<close>

theorem createRequest_overrides_empty_content_type:
  "map_of (Headers
      \<lparr>Endpoint = ''http://example.com'', Method = ''POST'', Body = ''{}'',
      Headers = [(''Content-Type'', [])], ServiceName = ''logs-receiver'', LogLevel = ''info'', Labels = []\<rparr>) ''Content-Type''
     = Some []
   \<and> copiedHeaders
      \<lparr>Endpoint = ''http://example.com'', Method = ''POST'', Body = ''{}'',
      Headers = [(''Content-Type'', [])], ServiceName = ''logs-receiver'', LogLevel = ''info'', Labels = []\<rparr>
     = [(''Content-Type'', [[]])]
   \<and> createRequest (\<lambda>method url. None)
      \<lparr>Endpoint = ''http://example.com'', Method = ''POST'', Body = ''{}'',
      Headers = [(''Content-Type'', [])], ServiceName = ''logs-receiver'', LogLevel = ''info'', Labels = []\<rparr>
     = Inr \<lparr>reqMethod = ''POST'', reqURL = ''http://example.com'', reqBody = Some ''{}'',
          reqHeader = [(''Content-Type'', [''application/json''])]\<rparr>"
  by (simp add: createRequest_emptyjson copiedHeaders_def HeaderSet_def
      canonical_Content_Type)

text \<open>
  C7, amended. The request carries a body reader exactly when the target's body is not
  empty. With a body, and with every \<^verbatim>\<open>Content-Type\<close> among the target's headers (if
  there is one at all) set to the empty string, the request's \<^verbatim>\<open>Content-Type\<close> is
  \<^verbatim>\<open>application/json\<close> when the body, trimmed of Unicode white space, starts with a
  brace and \<^verbatim>\<open>text/plain\<close> otherwise: the target's headers are copied and this one is
  set on top. In general the inferred value is set exactly when there is a body and the
  copied headers read as an empty \<^verbatim>\<open>Content-Type\<close>. When the target sets
  \<^verbatim>\<open>Content-Type\<close>, in any spelling of the key, and never to the empty string, the
  request has the target's headers and nothing else; the same holds without a body. The
  inference leaves every other header as it was.
\<close>

theorem createRequest_content_type_inference:
  "createRequest newRequestErr target = Inr req \<Longrightarrow>
   reqBody req = (if targetConfig.Body target = [] then None else Some (targetConfig.Body target))
   \<and> (targetConfig.Body target \<noteq> [] \<longrightarrow>
        (\<forall>kv\<in>set (Headers target). CanonicalMIMEHeaderKey (fst kv) \<noteq> ''Content-Type'') \<longrightarrow>
        HeaderGet (reqHeader req) ''Content-Type''
          = (if HasPrefix (TrimSpace (targetConfig.Body target)) ''{''
             then ''application/json'' else ''text/plain''))
   \<and> (targetConfig.Body target \<noteq> [] \<longrightarrow>
        (\<forall>kv\<in>set (Headers target).
            CanonicalMIMEHeaderKey (fst kv) = ''Content-Type'' \<longrightarrow> snd kv = []) \<longrightarrow>
        HeaderGet (reqHeader req) ''Content-Type''
          = (if HasPrefix (TrimSpace (targetConfig.Body target)) ''{''
             then ''application/json'' else ''text/plain'')
        \<and> reqHeader req
          = HeaderSet (copiedHeaders target) ''Content-Type''
              (if HasPrefix (TrimSpace (targetConfig.Body target)) ''{''
               then ''application/json'' else ''text/plain''))
   \<and> (targetConfig.Body target \<noteq> [] \<longrightarrow>
        HeaderGet (copiedHeaders target) ''Content-Type'' = [] \<longrightarrow>
        HeaderGet (reqHeader req) ''Content-Type''
          = (if HasPrefix (TrimSpace (targetConfig.Body target)) ''{''
             then ''application/json'' else ''text/plain'')
        \<and> reqHeader req
          = HeaderSet (copiedHeaders target) ''Content-Type''
              (if HasPrefix (TrimSpace (targetConfig.Body target)) ''{''
               then ''application/json'' else ''text/plain''))
   \<and> ((\<exists>kv\<in>set (Headers target). CanonicalMIMEHeaderKey (fst kv) = ''Content-Type'') \<longrightarrow>
        (\<forall>kv\<in>set (Headers target).
            CanonicalMIMEHeaderKey (fst kv) = ''Content-Type'' \<longrightarrow> snd kv \<noteq> []) \<longrightarrow>
        reqHeader req = copiedHeaders target
        \<and> HeaderGet (reqHeader req) ''Content-Type'' \<noteq> [])
   \<and> (targetConfig.Body target = [] \<longrightarrow> reqHeader req = copiedHeaders target)
   \<and> (HeaderGet (copiedHeaders target) ''Content-Type'' \<noteq> [] \<longrightarrow>
        reqHeader req = copiedHeaders target)
   \<and> (CanonicalMIMEHeaderKey key \<noteq> ''Content-Type'' \<longrightarrow>
        HeaderGet (reqHeader req) key = HeaderGet (copiedHeaders target) key)"
proof -
  let ?inferred = "if HasPrefix (TrimSpace (targetConfig.Body target)) ''{''
             then ''application/json'' else ''text/plain''"
  assume ok: "createRequest newRequestErr target = Inr req"
  note r = createRequest_result [OF ok]
  have hdr: "reqHeader req =
      (if targetConfig.Body target \<noteq> [] \<and> HeaderGet (copiedHeaders target) ''Content-Type'' = []
       then HeaderSet (copiedHeaders target) ''Content-Type'' ?inferred
       else copiedHeaders target)"
    by (subst r) (simp add: inferredContentType_def)
  have body: "reqBody req
      = (if targetConfig.Body target = [] then None else Some (targetConfig.Body target))"
    by (subst r) simp
  have unset: "targetConfig.Body target \<noteq> [] \<longrightarrow>
        HeaderGet (copiedHeaders target) ''Content-Type'' = [] \<longrightarrow>
        HeaderGet (reqHeader req) ''Content-Type'' = ?inferred
        \<and> reqHeader req = HeaderSet (copiedHeaders target) ''Content-Type'' ?inferred"
    by (simp add: hdr HeaderGet_HeaderSet)
  have empty: "targetConfig.Body target \<noteq> [] \<longrightarrow>
        (\<forall>kv\<in>set (Headers target).
            CanonicalMIMEHeaderKey (fst kv) = ''Content-Type'' \<longrightarrow> snd kv = []) \<longrightarrow>
        HeaderGet (reqHeader req) ''Content-Type'' = ?inferred
        \<and> reqHeader req = HeaderSet (copiedHeaders target) ''Content-Type'' ?inferred"
  proof (intro impI)
    assume b: "targetConfig.Body target \<noteq> []"
      and e: "\<forall>kv\<in>set (Headers target).
            CanonicalMIMEHeaderKey (fst kv) = ''Content-Type'' \<longrightarrow> snd kv = []"
    have "HeaderGet (copiedHeaders target) ''Content-Type'' = []"
      unfolding copiedHeaders_def using e
      by (rule copied_empty_content_type) (simp add: HeaderGet_def)
    with unset b
    show "HeaderGet (reqHeader req) ''Content-Type'' = ?inferred
        \<and> reqHeader req = HeaderSet (copiedHeaders target) ''Content-Type'' ?inferred"
      by blast
  qed
  have none: "targetConfig.Body target \<noteq> [] \<longrightarrow>
        (\<forall>kv\<in>set (Headers target). CanonicalMIMEHeaderKey (fst kv) \<noteq> ''Content-Type'') \<longrightarrow>
        HeaderGet (reqHeader req) ''Content-Type'' = ?inferred"
    using empty by blast
  have explicit: "(\<exists>kv\<in>set (Headers target). CanonicalMIMEHeaderKey (fst kv) = ''Content-Type'') \<longrightarrow>
        (\<forall>kv\<in>set (Headers target).
            CanonicalMIMEHeaderKey (fst kv) = ''Content-Type'' \<longrightarrow> snd kv \<noteq> []) \<longrightarrow>
        reqHeader req = copiedHeaders target
        \<and> HeaderGet (reqHeader req) ''Content-Type'' \<noteq> []"
  proof (intro impI)
    assume e: "\<exists>kv\<in>set (Headers target). CanonicalMIMEHeaderKey (fst kv) = ''Content-Type''"
      and ne: "\<forall>kv\<in>set (Headers target).
            CanonicalMIMEHeaderKey (fst kv) = ''Content-Type'' \<longrightarrow> snd kv \<noteq> []"
    have "HeaderGet (copiedHeaders target) ''Content-Type'' \<noteq> []"
      unfolding copiedHeaders_def using e ne by (rule copied_content_type_nonempty)
    then show "reqHeader req = copiedHeaders target
        \<and> HeaderGet (reqHeader req) ''Content-Type'' \<noteq> []"
      by (simp add: hdr)
  qed
  have nobody: "targetConfig.Body target = [] \<longrightarrow> reqHeader req = copiedHeaders target"
    by (simp add: hdr)
  have kept: "HeaderGet (copiedHeaders target) ''Content-Type'' \<noteq> [] \<longrightarrow>
        reqHeader req = copiedHeaders target"
    by (simp add: hdr)
  have others: "CanonicalMIMEHeaderKey key \<noteq> ''Content-Type'' \<longrightarrow>
        HeaderGet (reqHeader req) key = HeaderGet (copiedHeaders target) key"
    by (simp add: hdr HeaderGet_HeaderSet canonical_Content_Type)
  from body none empty unset explicit nobody kept others show ?thesis by blast
qed

theorem createRequest_content_type_witness:
  \<open>createRequest (\<lambda>method url. None)
     \<lparr>Endpoint = ''http://example.com'', Method = ''POST'', Body = ''{"k":"v"}'',
      Headers = [], ServiceName = ''logs-receiver'', LogLevel = ''info'', Labels = []\<rparr>
   = Inr \<lparr>reqMethod = ''POST'', reqURL = ''http://example.com'', reqBody = Some ''{"k":"v"}'',
          reqHeader = [(''Content-Type'', [''application/json''])]\<rparr>
   \<and> createRequest (\<lambda>method url. None)
     \<lparr>Endpoint = ''http://example.com'', Method = ''POST'', Body = ''plain text'',
      Headers = [], ServiceName = ''logs-receiver'', LogLevel = ''info'', Labels = []\<rparr>
   = Inr \<lparr>reqMethod = ''POST'', reqURL = ''http://example.com'', reqBody = Some ''plain text'',
          reqHeader = [(''Content-Type'', [''text/plain''])]\<rparr>
   \<and> createRequest (\<lambda>method url. None)
     \<lparr>Endpoint = ''http://example.com'', Method = ''POST'', Body = [CHR 0xC2, CHR 0xA0, CHR ''{'', CHR ''}''],
      Headers = [], ServiceName = ''logs-receiver'', LogLevel = ''info'', Labels = []\<rparr>
   = Inr \<lparr>reqMethod = ''POST'', reqURL = ''http://example.com'', reqBody = Some [CHR 0xC2, CHR 0xA0, CHR ''{'', CHR ''}''],
          reqHeader = [(''Content-Type'', [''application/json''])]\<rparr>
   \<and> createRequest (\<lambda>method url. None)
     \<lparr>Endpoint = ''http://example.com'', Method = ''POST'', Body = ''plain'',
      Headers = [(''Content-Type'', [])], ServiceName = ''logs-receiver'', LogLevel = ''info'', Labels = []\<rparr>
   = Inr \<lparr>reqMethod = ''POST'', reqURL = ''http://example.com'', reqBody = Some ''plain'',
          reqHeader = [(''Content-Type'', [''text/plain''])]\<rparr>
   \<and> HeaderGet [(''Content-Type'', [''text/plain''])] ''Content-Type'' = ''text/plain''
   \<and> CanonicalMIMEHeaderKey ''content-type'' = ''Content-Type''
   \<and> createRequest (\<lambda>method url. None)
     \<lparr>Endpoint = ''http://example.com'', Method = ''POST'', Body = ''{}'',
      Headers = [(''content-type'', ''application/xml'')], ServiceName = ''logs-receiver'', LogLevel = ''info'', Labels = []\<rparr>
   = Inr \<lparr>reqMethod = ''POST'', reqURL = ''http://example.com'', reqBody = Some ''{}'',
          reqHeader = [(''Content-Type'', [''application/xml''])]\<rparr>
   \<and> copiedHeaders
     \<lparr>Endpoint = ''http://example.com'', Method = ''POST'', Body = ''{}'',
      Headers = [(''content-type'', ''application/xml'')], ServiceName = ''logs-receiver'', LogLevel = ''info'', Labels = []\<rparr>
   = [(''Content-Type'', [''application/xml''])]\<close>
proof -
  note j = createRequest_content_type_inference [OF createRequest_json, of "''Accept''"]
  note t = createRequest_content_type_inference [OF createRequest_text, of "''Accept''"]
  note n = createRequest_content_type_inference [OF createRequest_nbsp, of "''Accept''"]
  note e = createRequest_content_type_inference [OF createRequest_emptytext, of "''Accept''"]
  note x = createRequest_content_type_inference [OF createRequest_xml, of "''Accept''"]
  have g: "HeaderGet [(''Content-Type'', [''text/plain''])] ''Content-Type'' = ''text/plain''"
    by (simp add: HeaderGet_def canonical_Content_Type)
  have c: "copiedHeaders
     \<lparr>Endpoint = ''http://example.com'', Method = ''POST'', Body = ''{}'',
      Headers = [(''content-type'', ''application/xml'')], ServiceName = ''logs-receiver'', LogLevel = ''info'', Labels = []\<rparr>
   = [(''Content-Type'', [''application/xml''])]"
    by (simp add: copiedHeaders_def HeaderSet_def canonical_content_type_lower)
  have ee: "\<forall>kv\<in>set (Headers
     \<lparr>Endpoint = ''http://example.com'', Method = ''POST'', Body = ''plain'',
      Headers = [(''Content-Type'', [])], ServiceName = ''logs-receiver'', LogLevel = ''info'', Labels = []\<rparr>). CanonicalMIMEHeaderKey (fst kv) = ''Content-Type'' \<longrightarrow> snd kv = []"
    by simp
  have eb: "targetConfig.Body
     \<lparr>Endpoint = ''http://example.com'', Method = ''POST'', Body = ''plain'',
      Headers = [(''Content-Type'', [])], ServiceName = ''logs-receiver'', LogLevel = ''info'', Labels = []\<rparr> \<noteq> []"
    by simp
  from e eb ee have "HeaderGet (reqHeader \<lparr>reqMethod = ''POST'', reqURL = ''http://example.com'', reqBody = Some ''plain'',
          reqHeader = [(''Content-Type'', [''text/plain''])]\<rparr>) ''Content-Type''
      = (if HasPrefix (TrimSpace (targetConfig.Body
     \<lparr>Endpoint = ''http://example.com'', Method = ''POST'', Body = ''plain'',
      Headers = [(''Content-Type'', [])], ServiceName = ''logs-receiver'', LogLevel = ''info'', Labels = []\<rparr>)) ''{''
         then ''application/json'' else ''text/plain'')"
    by blast
  then show ?thesis
    using j t n x g c
    by (simp add: createRequest_json createRequest_text createRequest_nbsp
        createRequest_emptytext createRequest_xml canonical_content_type_lower)
qed

section \<open>Configuration validation\<close>

lemma targetValidate_eq:
  "targetValidate p cfg =
     (case targetError p cfg of Some err \<Rightarrow> (Some err, cfg) | None \<Rightarrow> (None, withDefaults cfg))"
  by (cases cfg) (auto simp: targetValidate_def targetError_def withDefaults_def Let_def
      split: option.splits)

lemma validateTargets_error:
  "fst (validateTargets p targets) = None \<longleftrightarrow> list_all (\<lambda>t. targetError p t = None) targets"
  by (induction targets) (auto simp: targetValidate_eq split: option.splits prod.splits)

lemma validateTargets_accepted:
  "fst (validateTargets p targets) = None \<Longrightarrow>
   snd (validateTargets p targets) = map withDefaults targets"
  by (induction targets) (auto simp: targetValidate_eq split: option.splits prod.splits)

lemma validateTargets_first_error:
  "find (\<lambda>t. targetError p t \<noteq> None) targets = Some t \<Longrightarrow>
   fst (validateTargets p targets) = targetError p t"
  by (induction targets) (auto simp: targetValidate_eq split: option.splits prod.splits if_splits)

lemma Validate_fails_iff:
  "fst (Validate p cfg) \<noteq> None \<longleftrightarrow>
     Targets cfg = []
     \<or> list_ex (\<lambda>t. Endpoint t = [] \<or> ParseRequestURI p (Endpoint t) \<noteq> None) (Targets cfg)"
proof -
  have "list_all (\<lambda>t. targetError p t = None) ts
      \<longleftrightarrow> \<not> list_ex (\<lambda>t. Endpoint t = [] \<or> ParseRequestURI p (Endpoint t) \<noteq> None) ts" for ts
    by (induction ts) (auto simp: targetError_def)
  then show ?thesis
    using validateTargets_error [of p "Targets cfg"]
    by (auto simp: Validate_def Let_def split: prod.splits)
qed

lemma Validate_accepted:
  "fst (Validate p cfg) = None \<Longrightarrow>
   snd (Validate p cfg) =
     \<lparr>CollectionInterval =
        (if CollectionInterval cfg \<le> 0 then 30 * Second else CollectionInterval cfg),
      Targets = map withDefaults (Targets cfg)\<rparr>"
  using validateTargets_accepted [of p "Targets cfg"]
  by (cases cfg) (auto simp: Validate_def Let_def split: prod.splits if_splits)

lemma ParseRequestURI_no_scheme_no_slash:
  "ParseRequestURI p ''invalid-url'' = Some ''invalid URI for request''"
  by (simp add: ParseRequestURI_def stringContainsCTLByte_def getScheme_def isLetter_def
      isSchemeByte_def HasPrefix_def)

lemma ParseRequestURI_http_url:
  "ParseRequestURI p ''http://example.com/logs'' = p ''example.com''"
  by (simp add: ParseRequestURI_def stringContainsCTLByte_def getScheme_def isLetter_def
      isSchemeByte_def HasPrefix_def split: option.splits)

lemma ParseRequestURI_absolute_path:
  "ParseRequestURI p ''/logs'' = None"
  by (simp add: ParseRequestURI_def stringContainsCTLByte_def getScheme_def isLetter_def
      isSchemeByte_def HasPrefix_def)

text \<open>
  C8, at an endpoint without scheme and host. \<^verbatim>\<open>Validate\<close> accepts the configuration
  whose only target has the endpoint \<^verbatim>\<open>/logs\<close>: it returns no error and fills in the
  defaults, the interval of 30 seconds included, although \<^verbatim>\<open>getScheme\<close> finds no scheme
  in the endpoint and no authority is ever parsed.
\<close>

theorem Validate_accepts_endpoint_without_scheme_and_host:
  "Validate parseAuthorityErr
     \<lparr>CollectionInterval = 0,
      Targets = [\<lparr>Endpoint = ''/logs'', Method = [], Body = [], Headers = [],
                  ServiceName = [], LogLevel = [], Labels = []\<rparr>]\<rparr>
   = (None,
      \<lparr>CollectionInterval = 30 * Second,
       Targets = [\<lparr>Endpoint = ''/logs'', Method = ''GET'', Body = [], Headers = [],
                   ServiceName = ''logs-receiver'', LogLevel = ''info'', Labels = []\<rparr>]\<rparr>)
   \<and> getScheme ''/logs'' = Inr ([], ''/logs'')
   \<and> ParseRequestURI parseAuthorityErr ''/logs'' = None"
  by (simp add: Validate_def targetValidate_def ParseRequestURI_absolute_path getScheme_def
      isLetter_def isSchemeByte_def Let_def)

end
